theory Spec2Isabelle
  imports Main
begin

section \<open>JavaScript primitives used by the client\<close>

text \<open>
  The tap counter of a player cell is DOM text.  The client reads it back with
  \<^verbatim>\<open>parseInt(text) || 0\<close> and writes it with
  \<^verbatim>\<open>counter.textContent = currentCount + 1\<close>, which stores the decimal
  rendering of the number.  \<open>None\<close> stands for \<^verbatim>\<open>NaN\<close>.

  JavaScript numbers are doubles.  The model computes with the exact integer, which is
  what the program computes as long as every number involved is an integer of magnitude
  at most \<open>2^53\<close>; beyond that the program rounds, and from \<open>10^21\<close> on it writes
  exponent form.  Properties that depend on the arithmetic are stated for that range.
\<close>

definition safe_integer :: "int \<Rightarrow> bool" where
  "safe_integer k = (- (2 ^ 53) \<le> k \<and> k \<le> 2 ^ 53)"

text \<open>
  A character is a code unit below 256.  The white space \<^verbatim>\<open>parseInt\<close> skips: tab,
  line feed, vertical tab, form feed, carriage return, space and no-break space.
\<close>

definition is_ws :: "char \<Rightarrow> bool" where
  "is_ws c =
     (c \<in> set [CHR 0x09, CHR 0x0A, CHR 0x0B, CHR 0x0C, CHR 0x0D, CHR 0x20, CHR 0xA0])"

definition digit_val :: "char \<Rightarrow> nat option" where
  "digit_val c =
     (let k = (of_char c :: nat)
      in if 48 \<le> k \<and> k \<le> 57 then Some (k - 48)
         else if 97 \<le> k \<and> k \<le> 102 then Some (k - 87)
         else if 65 \<le> k \<and> k \<le> 70 then Some (k - 55)
         else None)"

definition is_digit :: "nat \<Rightarrow> char \<Rightarrow> bool" where
  "is_digit R c = (case digit_val c of None \<Rightarrow> False | Some d \<Rightarrow> d < R)"

definition digits_value :: "nat \<Rightarrow> string \<Rightarrow> nat" where
  "digits_value R z = foldl (\<lambda>a c. a * R + (case digit_val c of None \<Rightarrow> 0 | Some d \<Rightarrow> d)) 0 z"

text \<open>
  \<^verbatim>\<open>parseInt(s)\<close> with no radix: leading white space is skipped, one sign is
  accepted, a \<^verbatim>\<open>0x\<close> or \<^verbatim>\<open>0X\<close> prefix selects radix 16, and the longest
  prefix of digits is read; no digit at all gives \<^verbatim>\<open>NaN\<close>.
\<close>

definition parseInt :: "string \<Rightarrow> int option" where
  "parseInt s =
     (let s1 = dropWhile is_ws s;
          neg = (case s1 of [] \<Rightarrow> False | c # _ \<Rightarrow> c = CHR ''-'');
          s2 = (case s1 of [] \<Rightarrow> [] | c # r \<Rightarrow> if c = CHR ''-'' \<or> c = CHR ''+'' then r else s1);
          hex = (take 2 s2 = ''0x'' \<or> take 2 s2 = ''0X'');
          R = (if hex then 16 else 10);
          s3 = (if hex then drop 2 s2 else s2);
          z = takeWhile (is_digit R) s3
      in if z = [] then None
         else Some ((if neg then - 1 else 1) * int (digits_value R z)))"

text \<open>\<^verbatim>\<open>parseInt(s) || 0\<close>: \<^verbatim>\<open>NaN\<close> and \<open>0\<close> are falsy.\<close>

definition parseInt_or0 :: "string \<Rightarrow> int" where
  "parseInt_or0 s = (case parseInt s of None \<Rightarrow> 0 | Some k \<Rightarrow> if k = 0 then 0 else k)"

definition digit_char :: "nat \<Rightarrow> char" where
  "digit_char d = ''0123456789'' ! d"

function show_nat :: "nat \<Rightarrow> string" where
  "show_nat n = (if n < 10 then [digit_char n] else show_nat (n div 10) @ [digit_char (n mod 10)])"
  by pat_completeness auto
termination
  by (relation "measure id") auto

text \<open>The text a number turns into when it is assigned to \<^verbatim>\<open>textContent\<close>.\<close>

definition number_text :: "int \<Rightarrow> string" where
  "number_text k = (if k < 0 then CHR ''-'' # show_nat (nat (- k)) else show_nat (nat k))"

section \<open>Room codes (index.js)\<close>

definition letters :: string where
  "letters = ''ABCDEFGHJKLMNPQRSTUWXYZ''"

definition badWords :: "string list" where
  "badWords = [''FUCK'', ''FVCK'', ''SHIT'', ''DAMN'', ''CUNT'', ''DICK'', ''COCK'', ''TWAT'',
               ''CRAP'', ''STFU'']"

text \<open>\<^verbatim>\<open>s.charAt(i)\<close> is the empty string outside the string.\<close>

definition charAt :: "string \<Rightarrow> nat \<Rightarrow> string" where
  "charAt s i = (if i < length s then [s ! i] else [])"

text \<open>\<^verbatim>\<open>s.includes(w)\<close>: \<open>w\<close> occurs in \<open>s\<close> at some position.\<close>

definition includes_str :: "string \<Rightarrow> string \<Rightarrow> bool" where
  "includes_str s w = list_ex (\<lambda>i. take (length w) (drop i s) = w) [0..<Suc (length s)]"

text \<open>
  \<^verbatim>\<open>generateRoomCode\<close> loops until a code passes the filter.  Each element of
  \<open>draws\<close> is one value of \<^verbatim>\<open>Math.floor(Math.random() * letters.length)\<close>, in the
  order the loop consumes them; every round of the loop takes four.  When the draws run
  out before a code is accepted the loop has not returned, which is \<open>None\<close>.
\<close>

function generateRoomCode :: "nat list \<Rightarrow> string option" where
  "generateRoomCode draws =
     (if length draws < 4 then None
      else let code = concat (map (charAt letters) (take 4 draws))
           in if \<not> list_ex (\<lambda>word. includes_str code word) badWords then Some code
              else generateRoomCode (drop 4 draws))"
  by pat_completeness auto
termination
  by (relation "measure length") auto

section \<open>Game state and the player grid (index.js)\<close>

datatype error = TypeError | ReferenceError

text \<open>
  A \<^verbatim>\<open>.player-cell\<close> element.  A child that \<^verbatim>\<open>querySelector\<close> does not find is
  \<open>None\<close>; \<open>player_flash\<close> holds whether the flash element carries the class
  \<^verbatim>\<open>active\<close>.  \<^verbatim>\<open>createPlayerCell\<close> writes the cell as markup that contains the
  player's name; the name is taken to be plain text, which becomes the text of the name
  element.
\<close>

record cell =
  cell_id :: string
  player_name :: "string option"
  tap_counter :: "string option"
  player_flash :: "bool option"

definition createPlayerCell :: "string \<Rightarrow> string \<Rightarrow> cell" where
  "createPlayerCell playerId playerName =
     \<lparr>cell_id = ''player-'' @ playerId, player_name = Some playerName,
      tap_counter = Some ''0'', player_flash = Some False\<rparr>"

record player =
  name :: string
  skinId :: int

text \<open>
  The globals of index.js together with the parts of the page they act on: the pending
  round timers (\<^verbatim>\<open>setTimeout\<close> handles with their delay), the player cells in document
  order, the text of each winner modal appended to the body, and the calls of
  \<^verbatim>\<open>playOneShot\<close> made by \<^verbatim>\<open>showTapEffect\<close> and \<^verbatim>\<open>endGame\<close>.  The join and
  leave sounds of the roster functions, background music and styling are left out.
\<close>

record game =
  players :: "player list"
  isHost :: bool
  gameStarting :: bool
  gameStarted :: bool
  gameEndTimeout :: "nat option"
  timeouts :: "(nat \<times> nat) list"
  next_timeout :: nat
  cells :: "cell list"
  modals :: "string list"
  oneshots :: "string list"

definition GAME_DURATION :: nat where
  "GAME_DURATION = 60000"

definition game_init :: game where
  "game_init = \<lparr>players = [], isHost = False, gameStarting = False, gameStarted = False,
     gameEndTimeout = None, timeouts = [], next_timeout = 1, cells = [], modals = [],
     oneshots = []\<rparr>"


text \<open>
  The roster functions; each returns at once when the page has no player list, and the
  page has one.  The list on the page is redrawn from \<open>players\<close> and is not kept
  separately.
\<close>

definition addPlayerToList :: "string \<Rightarrow> int \<Rightarrow> game \<Rightarrow> game" where
  "addPlayerToList nm skin g = g\<lparr>players := players g @ [\<lparr>name = nm, skinId = skin\<rparr>]\<rparr>"

definition removePlayerFromList :: "string \<Rightarrow> game \<Rightarrow> game" where
  "removePlayerFromList nm g = g\<lparr>players := filter (\<lambda>p. name p \<noteq> nm) (players g)\<rparr>"

definition addPlayer :: "string \<Rightarrow> int \<Rightarrow> bool \<Rightarrow> game \<Rightarrow> game" where
  "addPlayer nm skin isHostPlayer g =
     (if isHostPlayer then g\<lparr>isHost := True\<rparr>
      else g\<lparr>players := players g @ [\<lparr>name = nm, skinId = skin\<rparr>]\<rparr>)"

definition clearTimeout :: "nat \<Rightarrow> (nat \<times> nat) list \<Rightarrow> (nat \<times> nat) list" where
  "clearTimeout t ts = filter (\<lambda>p. fst p \<noteq> t) ts"

definition startGameTimer :: "game \<Rightarrow> game" where
  "startGameTimer g =
     (if \<not> isHost g \<or> \<not> gameStarted g then g
      else g\<lparr>gameEndTimeout := Some (next_timeout g),
             timeouts := timeouts g @ [(next_timeout g, GAME_DURATION)],
             next_timeout := next_timeout g + 1\<rparr>)"

definition startGame :: "game \<Rightarrow> game" where
  "startGame g =
     (let g1 = g\<lparr>gameStarted := True\<rparr>
      in if isHost g1 then startGameTimer g1 else g1)"

text \<open>
  The body of the \<^verbatim>\<open>forEach\<close> in \<^verbatim>\<open>endGame\<close>, on the pair
  \<open>(maxTaps, winner)\<close>.  Reading \<^verbatim>\<open>textContent\<close> of a child that is not there
  throws.
\<close>

definition scan_cell :: "cell \<Rightarrow> int \<times> string option \<Rightarrow> error + int \<times> string option" where
  "scan_cell c acc =
     (case tap_counter c of
        None \<Rightarrow> Inl TypeError
      | Some t \<Rightarrow>
          let taps = parseInt_or0 t
          in if taps > fst acc
             then (case player_name c of
                     None \<Rightarrow> Inl TypeError
                   | Some nm \<Rightarrow> Inr (taps, Some nm))
             else Inr acc)"

fun scan_cells :: "cell list \<Rightarrow> int \<times> string option \<Rightarrow> error + int \<times> string option" where
  "scan_cells [] acc = Inr acc"
| "scan_cells (c # cs) acc =
     (case scan_cell c acc of Inl e \<Rightarrow> Inl e | Inr acc' \<Rightarrow> scan_cells cs acc')"

text \<open>The sentence of the winner modal; a \<^verbatim>\<open>null\<close> winner is rendered as such.\<close>

definition winner_text :: "string option \<Rightarrow> int \<Rightarrow> string" where
  "winner_text winner maxTaps =
     (case winner of None \<Rightarrow> ''null'' | Some nm \<Rightarrow> nm) @ '' wins with '' @
     number_text maxTaps @ '' taps!''"

text \<open>
  \<^verbatim>\<open>endGame\<close>.  An exception leaves the state as it is at the throw, which is the
  state carried by \<open>Inl\<close>.
\<close>

definition endGame :: "game \<Rightarrow> error \<times> game + game" where
  "endGame g =
     (let g1 = g\<lparr>gameStarted := False\<rparr>;
          g2 = (case gameEndTimeout g1 of
                  None \<Rightarrow> g1
                | Some t \<Rightarrow>
                    if t = 0 then g1
                    else g1\<lparr>timeouts := clearTimeout t (timeouts g1), gameEndTimeout := None\<rparr>)
      in case scan_cells (cells g2) (0, None) of
           Inl e \<Rightarrow> Inl (e, g2)
         | Inr (maxTaps, winner) \<Rightarrow>
             Inr (g2\<lparr>modals := modals g2 @ [winner_text winner maxTaps],
                     oneshots := oneshots g2 @ [''./assets/audio/victory.mp3'']\<rparr>))"

definition resetGameState :: "game \<Rightarrow> game" where
  "resetGameState g = g\<lparr>players := [], gameStarting := False\<rparr>"

text \<open>\<^verbatim>\<open>document.getElementById\<close> on the cells: the first one in document order.\<close>

fun getElementById :: "string \<Rightarrow> cell list \<Rightarrow> nat option" where
  "getElementById i [] = None"
| "getElementById i (c # cs) =
     (if cell_id c = i then Some 0 else map_option Suc (getElementById i cs))"

definition showTapEffect :: "string \<Rightarrow> game \<Rightarrow> game" where
  "showTapEffect playerId g =
     (case getElementById (''player-'' @ playerId) (cells g) of
        None \<Rightarrow> g
      | Some k \<Rightarrow>
          let c = cells g ! k
          in (case player_flash c of
                None \<Rightarrow> g
              | Some _ \<Rightarrow>
                  let c1 = c\<lparr>player_flash := Some True\<rparr>;
                      c2 = (case tap_counter c1 of
                              None \<Rightarrow> c1
                            | Some t \<Rightarrow>
                                c1\<lparr>tap_counter := Some (number_text (parseInt_or0 t + 1))\<rparr>)
                  in g\<lparr>cells := (cells g)[k := c2],
                       oneshots := oneshots g @ [''./assets/audio/tap.mp3'']\<rparr>))"

text \<open>The two callbacks index.js registers last; \<open>data\<close> is given by its field.\<close>

definition onTapEvent :: "string \<Rightarrow> game \<Rightarrow> game" where
  "onTapEvent playerId g = showTapEffect playerId g"

definition onGameStateUpdate :: "bool \<Rightarrow> game \<Rightarrow> error \<times> game + game" where
  "onGameStateUpdate gameEnded g = (if gameEnded then endGame g else Inr g)"

section \<open>The transport session (networking module)\<close>

datatype jsval = Undefined | Num int | Str string

text \<open>
  A JavaScript call binds parameters by position: an argument the caller leaves out is
  \<^verbatim>\<open>undefined\<close>, and an argument beyond the declared parameters is not bound at all.
\<close>

definition arg :: "jsval list \<Rightarrow> nat \<Rightarrow> jsval" where
  "arg args i = (if i < length args then args ! i else Undefined)"

record player_info =
  oldName :: jsval
  newNickname :: jsval
  newSkinId :: jsval

text \<open>
  The messages the client hands to \<^verbatim>\<open>emit\<close>.  The payload of
  \<^verbatim>\<open>create-room\<close> is \<^verbatim>\<open>{roomCode, hostId, hostSkin}\<close>, in this order.
\<close>

datatype wire =
    CreateRoomMsg jsval jsval jsval
  | UpdatePlayerInfoMsg player_info
  | UpdateGameStateMsg bool
  | PlayerTapMsg
  | PingMsg

text \<open>
  A socket object: whether it reports \<^verbatim>\<open>connected\<close>, its \<^verbatim>\<open>id\<close>, the messages
  handed to \<^verbatim>\<open>emit\<close> in order, the room codes captured by the
  \<^verbatim>\<open>once('connect')\<close> callbacks that \<^verbatim>\<open>createRoom\<close> has left on it, and how
  many times \<^verbatim>\<open>setupSocketEventHandlers\<close> has put its listeners on it.  That function
  adds its listeners with \<^verbatim>\<open>socket.on\<close> and never removes one, so a message that
  arrives on the socket runs the handler for it that many times.
\<close>

record sock =
  connected :: bool
  sock_id :: jsval
  emitted :: "wire list"
  once_connect :: "jsval list"
  listeners :: nat

text \<open>
  The module's globals.  Every socket is made by \<^verbatim>\<open>connectToServer\<close>, which also
  assigns it to the global \<^verbatim>\<open>socket\<close>: \<open>sockets\<close> holds them newest first, so its
  head is the global and the empty list is \<^verbatim>\<open>undefined\<close>.  \<open>intervals\<close> are the live
  \<^verbatim>\<open>setInterval\<close> handles, \<open>reconnects\<close> the pending
  \<^verbatim>\<open>setTimeout(() => connectToServer(), 1000)\<close> handles with their delay,
  \<open>error_message\<close> the texts passed to \<^verbatim>\<open>showError\<close>.  The callbacks are those
  that index.js registers last; it registers them while the page loads, when there is no
  socket yet, so \<^verbatim>\<open>setCallbacks\<close> puts no listener on any socket.
\<close>

record net =
  sockets :: "sock list"
  pingInterval :: "nat option"
  lastPongReceived :: "nat option"
  intervals :: "nat list"
  reconnects :: "(nat \<times> nat) list"
  next_timer :: nat
  console :: "string list"
  error_message :: "string list"

definition net_init :: net where
  "net_init = \<lparr>sockets = [], pingInterval = None, lastPongReceived = None, intervals = [],
     reconnects = [], next_timer = 1, console = [], error_message = []\<rparr>"

definition new_sock :: sock where
  "new_sock = \<lparr>connected = False, sock_id = Undefined, emitted = [], once_connect = [],
     listeners = 0\<rparr>"

text \<open>\<^verbatim>\<open>socket && socket.connected\<close>\<close>

definition socket_connected :: "net \<Rightarrow> bool" where
  "socket_connected n = (case sockets n of [] \<Rightarrow> False | s # _ \<Rightarrow> connected s)"

text \<open>\<^verbatim>\<open>socket.emit(m)\<close> on a socket that exists.\<close>

definition emit :: "wire \<Rightarrow> net \<Rightarrow> net" where
  "emit m n =
     (case sockets n of
        [] \<Rightarrow> n
      | s # rest \<Rightarrow> n\<lparr>sockets := s\<lparr>emitted := emitted s @ [m]\<rparr> # rest\<rparr>)"

definition showError :: "string \<Rightarrow> net \<Rightarrow> net" where
  "showError message n = n\<lparr>error_message := error_message n @ [message]\<rparr>"

definition connectToServer :: "net \<Rightarrow> net" where
  "connectToServer n =
     (if socket_connected n then n else n\<lparr>sockets := new_sock # sockets n\<rparr>)"

text \<open>
  \<^verbatim>\<open>Date.now() - lastPongReceived > 60000\<close>; with \<^verbatim>\<open>lastPongReceived\<close> still
  \<^verbatim>\<open>undefined\<close> the difference is \<^verbatim>\<open>NaN\<close> and the test is false.
\<close>

definition pong_overdue :: "nat \<Rightarrow> nat option \<Rightarrow> bool" where
  "pong_overdue now lastPong =
     (case lastPong of None \<Rightarrow> False | Some t \<Rightarrow> int now - int t > 60000)"

text \<open>The callback of the heartbeat interval, run at time \<open>now\<close>.\<close>

definition heartbeat :: "nat \<Rightarrow> net \<Rightarrow> error \<times> net + net" where
  "heartbeat now n =
     (case sockets n of
        [] \<Rightarrow> Inl (TypeError, n)
      | s # rest \<Rightarrow>
          if connected s then
            let n1 = emit PingMsg n
            in if pong_overdue now (lastPongReceived n1) then
                 let n2 = n1\<lparr>console := console n1 @ [''Connection lost, attempting to reconnect...'']\<rparr>;
                     n3 = (case pingInterval n2 of
                             None \<Rightarrow> n2
                           | Some i \<Rightarrow> n2\<lparr>intervals := removeAll i (intervals n2)\<rparr>);
                     n4 = (case sockets n3 of
                             [] \<Rightarrow> n3
                           | s' # rest' \<Rightarrow> n3\<lparr>sockets := s'\<lparr>connected := False\<rparr> # rest'\<rparr>)
                 in Inr (n4\<lparr>reconnects := reconnects n4 @ [(next_timer n4, 1000)],
                           next_timer := next_timer n4 + 1\<rparr>)
               else Inr n1
          else Inr n)"

text \<open>
  \<^verbatim>\<open>setupSocketEventHandlers\<close>: with no socket it returns; otherwise it adds one
  more set of listeners to the global socket.
\<close>

definition setupSocketEventHandlers :: "net \<Rightarrow> net" where
  "setupSocketEventHandlers n =
     (case sockets n of
        [] \<Rightarrow> n
      | s # rest \<Rightarrow> n\<lparr>sockets := s\<lparr>listeners := listeners s + 1\<rparr> # rest\<rparr>)"

text \<open>The \<^verbatim>\<open>connect\<close> handler that \<^verbatim>\<open>connectToServer\<close> puts on every socket.\<close>

definition connect_handler :: "nat \<Rightarrow> net \<Rightarrow> net" where
  "connect_handler now n =
     (let n1 = n\<lparr>console := console n @ [''Connected to server''],
                 lastPongReceived := Some now\<rparr>;
          n2 = (case pingInterval n1 of
                  None \<Rightarrow> n1
                | Some i \<Rightarrow>
                    if i = 0 then n1 else n1\<lparr>intervals := removeAll i (intervals n1)\<rparr>);
          n3 = n2\<lparr>pingInterval := Some (next_timer n2),
                  intervals := intervals n2 @ [next_timer n2],
                  next_timer := next_timer n2 + 1\<rparr>
      in setupSocketEventHandlers n3)"

definition on_pong :: "nat \<Rightarrow> net \<Rightarrow> net" where
  "on_pong now n = n\<lparr>lastPongReceived := Some now\<rparr>"

definition performCreateRoom :: "jsval list \<Rightarrow> net \<Rightarrow> error \<times> net + net" where
  "performCreateRoom args n =
     (let roomCode = arg args 0;
          hostSkin = arg args 1;
          n1 = n\<lparr>console := console n @ [''Creating room with code:'']\<rparr>
      in case sockets n1 of
           [] \<Rightarrow> Inl (TypeError, n1)
         | s # rest \<Rightarrow> Inr (emit (CreateRoomMsg roomCode (sock_id s) hostSkin) n1))"

definition createRoom :: "jsval list \<Rightarrow> net \<Rightarrow> error \<times> net + net" where
  "createRoom args n =
     (let roomCode = arg args 0
      in if \<not> socket_connected n then
           let n1 = connectToServer n
           in (case sockets n1 of
                 [] \<Rightarrow> Inl (TypeError, n1)
               | s # rest \<Rightarrow>
                   Inr (n1\<lparr>sockets := s\<lparr>once_connect := once_connect s @ [roomCode]\<rparr> # rest\<rparr>))
         else performCreateRoom [roomCode] n)"

text \<open>
  The \<^verbatim>\<open>once('connect')\<close> callbacks of a socket, run in the order they were added;
  an exception in one ends the dispatch.
\<close>

fun run_once :: "jsval list \<Rightarrow> net \<Rightarrow> error \<times> net + net" where
  "run_once [] n = Inr n"
| "run_once (roomCode # later) n =
     (case performCreateRoom [roomCode] n of
        Inl e \<Rightarrow> Inl e
      | Inr n' \<Rightarrow> run_once later n')"

text \<open>
  The transport reports that the socket at position \<open>k\<close> is connected, with the id the
  server gave it: the socket is marked, then its \<^verbatim>\<open>connect\<close> listeners run, the
  permanent one first.
\<close>

definition socket_connects :: "nat \<Rightarrow> jsval \<Rightarrow> nat \<Rightarrow> net \<Rightarrow> error \<times> net + net" where
  "socket_connects k sid now n =
     (if k < length (sockets n) then
        let s = sockets n ! k;
            n1 = n\<lparr>sockets := (sockets n)[k := s\<lparr>connected := True, sock_id := sid,
                                               once_connect := []\<rparr>]\<rparr>
        in run_once (once_connect s) (connect_handler now n1)
      else Inr n)"

definition socket_drops :: "nat \<Rightarrow> net \<Rightarrow> net" where
  "socket_drops k n =
     (if k < length (sockets n)
      then n\<lparr>sockets := (sockets n)[k := (sockets n ! k)\<lparr>connected := False\<rparr>]\<rparr>
      else n)"

definition sendTap :: "net \<Rightarrow> net" where
  "sendTap n = (if socket_connected n then emit PlayerTapMsg n else n)"

definition updateGameState :: "bool \<Rightarrow> net \<Rightarrow> net" where
  "updateGameState gameEnded n =
     (if socket_connected n then emit (UpdateGameStateMsg gameEnded) n else n)"

definition updatePlayerInfo :: "player_info \<Rightarrow> net \<Rightarrow> net" where
  "updatePlayerInfo data n =
     (let n1 = n\<lparr>console := console n @ [''NetworkManager: Sending player info update:'']\<rparr>
      in if socket_connected n1 then emit (UpdatePlayerInfoMsg data) n1
         else n1\<lparr>console := console n1 @
                   [''NetworkManager: Cannot send update - socket not connected'']\<rparr>)"

text \<open>What the event loop goes on with after a callback, thrown or not.\<close>

definition settle :: "error \<times> 's + 's \<Rightarrow> 's" where
  "settle r = (case r of Inl (e, s) \<Rightarrow> s | Inr s \<Rightarrow> s)"

datatype net_event =
    ConnectToServer
  | SocketConnects nat jsval nat
  | SocketDrops nat
  | HeartbeatFires nat nat
  | ReconnectFires nat
  | PongArrives nat
  | CreateRoomCalled "jsval list"
  | UpdatePlayerInfoCalled player_info

text \<open>
  One turn of the event loop on the transport session.  A timer fires only while its
  handle is live; a one-shot timer is gone once it has fired.
\<close>

definition net_step :: "net_event \<Rightarrow> net \<Rightarrow> error \<times> net + net" where
  "net_step ev n =
     (case ev of
        ConnectToServer \<Rightarrow> Inr (connectToServer n)
      | SocketConnects k sid now \<Rightarrow> socket_connects k sid now n
      | SocketDrops k \<Rightarrow> Inr (socket_drops k n)
      | HeartbeatFires i now \<Rightarrow> if i \<in> set (intervals n) then heartbeat now n else Inr n
      | ReconnectFires t \<Rightarrow>
          if t \<in> fst ` set (reconnects n)
          then Inr (connectToServer (n\<lparr>reconnects := clearTimeout t (reconnects n)\<rparr>))
          else Inr n
      | PongArrives now \<Rightarrow> Inr (on_pong now n)
      | CreateRoomCalled args \<Rightarrow> createRoom args n
      | UpdatePlayerInfoCalled data \<Rightarrow> Inr (updatePlayerInfo data n))"

fun net_run :: "net_event list \<Rightarrow> net \<Rightarrow> net" where
  "net_run [] n = n"
| "net_run (ev # evs) n = net_run evs (settle (net_step ev n))"

section \<open>The client: both modules on one page\<close>

text \<open>
  The callback of the round timer set by \<^verbatim>\<open>startGameTimer\<close>, for the handle \<open>t\<close>.
\<close>

definition round_timer_fires :: "nat \<Rightarrow> net \<times> game \<Rightarrow> error \<times> (net \<times> game) + net \<times> game" where
  "round_timer_fires t c =
     (case c of (n, g) \<Rightarrow>
        if t \<in> fst ` set (timeouts g) then
          let g0 = g\<lparr>timeouts := clearTimeout t (timeouts g)\<rparr>;
              n1 = updateGameState True n
          in (case endGame g0 of
                Inl (e, g1) \<Rightarrow> Inl (e, (n1, g1))
              | Inr g1 \<Rightarrow> Inr (n1, g1))
        else Inr c)"

text \<open>
  The click handler that \<^verbatim>\<open>addPlayer\<close> puts on the start button.  Past the test
  of the player count and the test for \<^verbatim>\<open>networkManager\<close>, which the loaded
  transport module satisfies, it evaluates \<^verbatim>\<open>socket.emit('gameStart')\<close>.  index.js
  declares no \<^verbatim>\<open>socket\<close>, and the page loads both files as modules, so the transport's
  variable of that name is not in scope: the reference throws, and \<^verbatim>\<open>startGame\<close> on
  the next line is not reached.
\<close>

definition start_button_click :: "net \<times> game \<Rightarrow> error \<times> (net \<times> game) + net \<times> game" where
  "start_button_click c =
     (case c of (n, g) \<Rightarrow>
        if length (players g) \<ge> 0 then Inl (ReferenceError, c)
        else Inr (n\<lparr>error_message := error_message n @ [''Error starting game'']\<rparr>, g))"

text \<open>The messages of the relay that the round depends on.\<close>

datatype message =
    GameStartingMsg
  | TapEventMsg string
  | GameStateUpdateMsg bool
  | RoomClosedMsg

text \<open>
  One listener of \<^verbatim>\<open>setupSocketEventHandlers\<close> for the message, with the callback
  index.js has registered for it.
\<close>

definition on_message :: "message \<Rightarrow> net \<times> game \<Rightarrow> error \<times> (net \<times> game) + net \<times> game" where
  "on_message m c =
     (case c of (n, g) \<Rightarrow>
        (case m of
           GameStartingMsg \<Rightarrow>
             Inr (n\<lparr>console := console n @ [''Received gameStarting event'']\<rparr>, startGame g)
         | TapEventMsg playerId \<Rightarrow> Inr (n, onTapEvent playerId g)
         | GameStateUpdateMsg gameEnded \<Rightarrow>
             (case onGameStateUpdate gameEnded g of
                Inl (e, g') \<Rightarrow> Inl (e, (n, g'))
              | Inr g' \<Rightarrow> Inr (n, g'))
         | RoomClosedMsg \<Rightarrow> Inr (showError ''Host has disconnected'' n, resetGameState g)))"

text \<open>
  A message is handed to every listener registered for it, in turn; an exception in
  one ends the dispatch.
\<close>

fun deliver :: "nat \<Rightarrow> message \<Rightarrow> net \<times> game \<Rightarrow> error \<times> (net \<times> game) + net \<times> game" where
  "deliver 0 m c = Inr c"
| "deliver (Suc l) m c =
     (case on_message m c of
        Inl e \<Rightarrow> Inl e
      | Inr c' \<Rightarrow> deliver l m c')"

text \<open>
  A turn of the event loop on the client: a message arrives on the socket at position
  \<open>k\<close>, the round timer with handle \<open>t\<close> fires, or the start button is clicked.
\<close>

datatype client_event =
    Receives nat message
  | RoundTimerFires nat
  | StartButtonClick

definition client_step :: "client_event \<Rightarrow> net \<times> game \<Rightarrow> error \<times> (net \<times> game) + net \<times> game" where
  "client_step ev c =
     (case ev of
        Receives k m \<Rightarrow>
          if k < length (sockets (fst c)) then deliver (listeners (sockets (fst c) ! k)) m c
          else Inr c
      | RoundTimerFires t \<Rightarrow> round_timer_fires t c
      | StartButtonClick \<Rightarrow> start_button_click c)"

fun client_run :: "client_event list \<Rightarrow> net \<times> game \<Rightarrow> net \<times> game" where
  "client_run [] c = c"
| "client_run (ev # evs) c = client_run evs (settle (client_step ev c))"

section \<open>Observations used to state the properties\<close>

text \<open>
  The tap count a cell displays, read the way the client reads it, and the cell that
  \<^verbatim>\<open>getElementById\<close> finds for a player id.
\<close>

definition displayed_count :: "cell \<Rightarrow> int" where
  "displayed_count c = (case tap_counter c of None \<Rightarrow> 0 | Some t \<Rightarrow> parseInt_or0 t)"

definition player_cell :: "string \<Rightarrow> game \<Rightarrow> cell option" where
  "player_cell playerId g =
     map_option (\<lambda>k. cells g ! k) (getElementById (''player-'' @ playerId) (cells g))"

text \<open>A cell that has the two children \<^verbatim>\<open>endGame\<close> reads.\<close>

definition readable :: "cell \<Rightarrow> bool" where
  "readable c = (tap_counter c \<noteq> None \<and> player_name c \<noteq> None)"

text \<open>
  At most the interval whose handle is in \<^verbatim>\<open>pingInterval\<close> is live, and handles are
  positive, as \<^verbatim>\<open>setInterval\<close> gives them.
\<close>

definition heartbeat_inv :: "net \<Rightarrow> bool" where
  "heartbeat_inv n =
     (0 < next_timer n \<and> pingInterval n \<noteq> Some 0 \<and>
      (intervals n = [] \<or> map Some (intervals n) = [pingInterval n]))"

section \<open>Properties\<close>

declare show_nat.simps [simp del]
declare generateRoomCode.simps [simp del]

text \<open>The defining equations, collected for evaluating the model on concrete inputs.\<close>

lemmas js_defs = parseInt_def parseInt_or0_def is_ws_def is_digit_def digit_val_def
  digits_value_def number_text_def digit_char_def show_nat.simps

lemmas net_defs = net_step_def settle_def connectToServer_def socket_connected_def
  socket_connects_def socket_drops_def connect_handler_def heartbeat_def createRoom_def
  performCreateRoom_def emit_def arg_def new_sock_def net_init_def on_pong_def
  pong_overdue_def updatePlayerInfo_def updateGameState_def sendTap_def clearTimeout_def
  showError_def setupSocketEventHandlers_def Let_def

lemmas game_defs = game_init_def addPlayer_def addPlayerToList_def startGame_def
  startGameTimer_def GAME_DURATION_def endGame_def scan_cell_def winner_text_def
  resetGameState_def showTapEffect_def onTapEvent_def onGameStateUpdate_def
  createPlayerCell_def client_step_def round_timer_fires_def start_button_click_def
  on_message_def

subsection \<open>Starting a round\<close>






subsection \<open>Room codes\<close>

lemma includes_str_iff: "includes_str s w \<longleftrightarrow> (\<exists>pre post. s = pre @ w @ post)"
proof
  assume "includes_str s w"
  then obtain i where i: "take (length w) (drop i s) = w"
    by (auto simp: includes_str_def list_ex_iff)
  have "s = take i s @ drop i s"
    by simp
  also have "drop i s = take (length w) (drop i s) @ drop (length w) (drop i s)"
    by (simp only: append_take_drop_id)
  finally have "s = take i s @ w @ drop (length w) (drop i s)"
    using i by simp
  then show "\<exists>pre post. s = pre @ w @ post" by metis
next
  assume "\<exists>pre post. s = pre @ w @ post"
  then obtain pre post where s: "s = pre @ w @ post" by blast
  have "length pre < Suc (length s)" "take (length w) (drop (length pre) s) = w"
    by (simp_all add: s)
  then show "includes_str s w"
    unfolding includes_str_def list_ex_iff by (metis atLeastLessThan_iff set_upt zero_le)
qed

lemma concat_charAt:
  "\<forall>d\<in>set xs. d < length s \<Longrightarrow> concat (map (charAt s) xs) = map ((!) s) xs"
  by (induction xs) (simp_all add: charAt_def)

lemma code_shape:
  assumes "4 \<le> length draws" and "\<forall>d\<in>set draws. d < length letters"
  shows "length (concat (map (charAt letters) (take 4 draws))) = 4"
    and "set (concat (map (charAt letters) (take 4 draws))) \<subseteq> set letters"
proof -
  have in_range: "\<forall>d\<in>set (take 4 draws). d < length letters"
    using assms(2) by (meson in_set_takeD)
  then have eq: "concat (map (charAt letters) (take 4 draws)) = map ((!) letters) (take 4 draws)"
    by (rule concat_charAt)
  show "length (concat (map (charAt letters) (take 4 draws))) = 4"
    using assms(1) by (simp add: eq)
  show "set (concat (map (charAt letters) (take 4 draws))) \<subseteq> set letters"
    using in_range by (auto simp: eq)
qed

lemma letters_unambiguous: "CHR ''I'' \<notin> set letters \<and> CHR ''O'' \<notin> set letters"
  by (simp add: letters_def)

text \<open>The loop returns in the round whose four draws spell an acceptable code.\<close>

lemma generateRoomCode_returns:
  assumes "4 \<le> length draws"
    and "\<not> list_ex (includes_str (concat (map (charAt letters) (take 4 draws)))) badWords"
  shows "generateRoomCode draws = Some (concat (map (charAt letters) (take 4 draws)))"
  using assms by (subst generateRoomCode.simps) (simp add: Let_def)

text \<open>
  C7.  Whenever \<^verbatim>\<open>generateRoomCode\<close> returns, on draws that are indices into the
  alphabet as \<^verbatim>\<open>Math.floor(Math.random() * letters.length)\<close> yields them, the code
  has exactly four characters, all from the alphabet, which has neither \<open>I\<close> nor \<open>O\<close>,
  and no word of the denylist occurs in it.
\<close>

theorem generateRoomCode_sound:
  assumes "generateRoomCode draws = Some code"
    and "\<forall>d\<in>set draws. d < length letters"
  shows "length code = 4 \<and> set code \<subseteq> set letters \<and>
         CHR ''I'' \<notin> set code \<and> CHR ''O'' \<notin> set code \<and>
         (\<forall>w\<in>set badWords. \<not> (\<exists>pre post. code = pre @ w @ post))"
  using assms
proof (induction draws rule: generateRoomCode.induct)
  case (1 draws)
  let ?c = "concat (map (charAt letters) (take 4 draws))"
  from "1.prems"(1) have len: "4 \<le> length draws"
    by (subst (asm) generateRoomCode.simps) (auto split: if_splits)
  show ?case
  proof (cases "list_ex (\<lambda>word. includes_str ?c word) badWords")
    case True
    with len "1.prems"(1) have "generateRoomCode (drop 4 draws) = Some code"
      by (subst (asm) generateRoomCode.simps) (simp add: Let_def)
    moreover have "\<forall>d\<in>set (drop 4 draws). d < length letters"
      using "1.prems"(2) by (meson in_set_dropD)
    ultimately show ?thesis
      using "1.IH" [of ?c] len True by simp
  next
    case False
    with len "1.prems"(1) have code: "code = ?c"
      by (subst (asm) generateRoomCode.simps) (simp add: Let_def)
    have "length code = 4" and sub: "set code \<subseteq> set letters"
      unfolding code using code_shape [OF len "1.prems"(2)] by blast+
    moreover have "CHR ''I'' \<notin> set code" "CHR ''O'' \<notin> set code"
      using sub letters_unambiguous by blast+
    moreover have "\<forall>w\<in>set badWords. \<not> (\<exists>pre post. code = pre @ w @ post)"
      using False unfolding code list_ex_iff includes_str_iff by blast
    ultimately show ?thesis by blast
  qed
qed

text \<open>The draws 3, 0, 11, 12 spell DAMN, which is rejected; the next four spell SLBZ.\<close>

theorem generateRoomCode_sound_witness:
  "generateRoomCode [3, 0, 11, 12, 16, 10, 1, 22] = Some ''SLBZ'' \<and>
   length ''SLBZ'' = 4 \<and> CHR ''I'' \<notin> set ''SLBZ'' \<and> CHR ''O'' \<notin> set ''SLBZ'' \<and>
   \<not> (\<exists>pre post. ''SLBZ'' = pre @ ''DAMN'' @ post)"
proof -
  have run: "generateRoomCode [3, 0, 11, 12, 16, 10, 1, 22] = Some ''SLBZ''"
    by code_simp
  have range: "\<forall>d\<in>set [3, 0, 11, 12, 16, 10, 1, 22::nat]. d < length letters"
    by (simp add: letters_def)
  have "''DAMN'' \<in> set badWords"
    by (simp add: badWords_def)
  with generateRoomCode_sound [OF run range] run show ?thesis by blast
qed

subsection \<open>Creating a room\<close>

text \<open>
  \<^verbatim>\<open>createRoom\<close> declares one parameter and hands \<^verbatim>\<open>performCreateRoom\<close> one
  argument, so on a connected socket the message carries the room code, the socket's id
  and an undefined skin, whatever else the caller passed.
\<close>

lemma createRoom_connected:
  assumes "sockets n = s # rest" and "connected s"
  shows "createRoom args n =
           Inr (n\<lparr>console := console n @ [''Creating room with code:''],
                  sockets := s\<lparr>emitted := emitted s @
                     [CreateRoomMsg (arg args 0) (sock_id s) Undefined]\<rparr> # rest\<rparr>)"
  using assms
  by (simp add: createRoom_def performCreateRoom_def socket_connected_def emit_def arg_def Let_def)

text \<open>
  C4.  The create-lobby handler calls \<^verbatim>\<open>createRoom(code, skin)\<close>.  With code ABCD and
  skin 3, on a session connected as \<open>s1\<close>, the message sent is
  \<^verbatim>\<open>{roomCode: 'ABCD', hostId: 's1', hostSkin: undefined}\<close>: the skin is lost.  The
  same message results when the call comes first and the connection afterwards.
\<close>

theorem createRoom_hostSkin_lost:
  "createRoom [Str ''ABCD'', Num 3]
     (net_run [ConnectToServer, SocketConnects 0 (Str ''s1'') 1000] net_init) =
   Inr (emit (CreateRoomMsg (Str ''ABCD'') (Str ''s1'') Undefined)
         ((net_run [ConnectToServer, SocketConnects 0 (Str ''s1'') 1000] net_init)
            \<lparr>console := [''Connected to server'', ''Creating room with code:'']\<rparr>)) \<and>
   map emitted (sockets (net_run [CreateRoomCalled [Str ''ABCD'', Num 3],
                                  SocketConnects 0 (Str ''s1'') 1000] net_init)) =
     [[CreateRoomMsg (Str ''ABCD'') (Str ''s1'') Undefined]]"
  by (simp add: net_defs)

subsection \<open>Room reset\<close>

text \<open>
  C3.  A host has created the room and has one peer A.  The \<^verbatim>\<open>gameStarting\<close> signal
  arrives, which starts the round and the host's timer; two taps of A arrive; then the
  room is closed.  \<^verbatim>\<open>resetGameState\<close> empties the roster, but the round timer stays
  pending with its handle still in \<^verbatim>\<open>gameEndTimeout\<close>, \<^verbatim>\<open>gameStarted\<close> stays
  set, and A's cell still shows 2.  When the timer fires later, the round of the closed
  room ends with A as the winner.  A peer that receives the same messages is likewise
  left with \<^verbatim>\<open>gameStarted\<close> set and the count 2 on display.
\<close>

theorem roomClosed_leaves_round_state:
  "(let c = client_run [Receives 0 GameStartingMsg, Receives 0 (TapEventMsg ''a''),
                        Receives 0 (TapEventMsg ''a''), Receives 0 RoomClosedMsg]
              (net_run [CreateRoomCalled [Str ''ABCD'', Num 1],
                        SocketConnects 0 (Str ''s1'') 1000] net_init,
               addPlayerToList ''A'' 2 (addPlayer ''You (Host)'' 1 True
                 (game_init\<lparr>cells := [createPlayerCell ''a'' ''A'']\<rparr>)))
    in players (snd c) = [] \<and>
       timeouts (snd c) = [(1, 60000)] \<and> gameEndTimeout (snd c) = Some 1 \<and>
       gameStarted (snd c) \<and>
       map tap_counter (cells (snd c)) = [Some ''2''] \<and>
       error_message (fst c) = [''Host has disconnected''] \<and>
       modals (snd (client_run [RoundTimerFires 1] c)) = [''A wins with 2 taps!'']) \<and>
   (let c = client_run [Receives 0 GameStartingMsg, Receives 0 (TapEventMsg ''a''),
                        Receives 0 (TapEventMsg ''a''), Receives 0 RoomClosedMsg]
              (net_run [ConnectToServer, SocketConnects 0 (Str ''s2'') 1000] net_init,
               game_init\<lparr>cells := [createPlayerCell ''a'' ''A'']\<rparr>)
    in players (snd c) = [] \<and> gameStarted (snd c) \<and>
       map tap_counter (cells (snd c)) = [Some ''2''] \<and>
       error_message (fst c) = [''Host has disconnected''])"
  by (simp add: net_defs game_defs js_defs)

subsection \<open>Numbers as text\<close>

lemma digit_char_cases:
  assumes "d < 10"
  shows "digit_val (digit_char d) = Some d" and "\<not> is_ws (digit_char d)"
    and "digit_char d \<noteq> CHR ''-''" and "digit_char d \<noteq> CHR ''+''"
    and "digit_char d \<noteq> CHR ''x''" and "digit_char d \<noteq> CHR ''X''"
proof -
  from assms have d: "d \<in> {0, 1, 2, 3, 4, 5, 6, 7, 8, 9}" by auto
  from d show "digit_val (digit_char d) = Some d"
    by (auto simp: digit_char_def digit_val_def)
  from d show "\<not> is_ws (digit_char d)"
    by (auto simp: digit_char_def is_ws_def)
  from d show "digit_char d \<noteq> CHR ''-''" and "digit_char d \<noteq> CHR ''+''"
    and "digit_char d \<noteq> CHR ''x''" and "digit_char d \<noteq> CHR ''X''"
    by (auto simp: digit_char_def)
qed

lemma show_nat_dec: "\<forall>c\<in>set (show_nat n). \<exists>d<10. c = digit_char d"
proof (induction n rule: show_nat.induct)
  case (1 n)
  show ?case
  proof (cases "n < 10")
    case True
    then show ?thesis by (subst show_nat.simps) auto
  next
    case False
    have "\<exists>d<10. digit_char (n mod 10) = digit_char d"
      by (rule exI [of _ "n mod 10"]) simp
    with False "1.IH" show ?thesis by (subst show_nat.simps) auto
  qed
qed

lemma show_nat_nonempty: "show_nat n \<noteq> []"
  by (subst show_nat.simps) simp

lemma digits_value_snoc:
  "digits_value R (z @ [c]) =
     digits_value R z * R + (case digit_val c of None \<Rightarrow> 0 | Some d \<Rightarrow> d)"
  by (simp add: digits_value_def)

lemma digits_value_show_nat: "digits_value 10 (show_nat n) = n"
proof (induction n rule: show_nat.induct)
  case (1 n)
  show ?case
  proof (cases "n < 10")
    case True
    then show ?thesis
      by (subst show_nat.simps) (simp add: digits_value_def digit_char_cases)
  next
    case False
    have "n mod 10 < 10" by simp
    then have "digit_val (digit_char (n mod 10)) = Some (n mod 10)"
      by (rule digit_char_cases)
    with False "1.IH" show ?thesis
      by (subst show_nat.simps) (simp add: digits_value_snoc)
  qed
qed

lemma parseInt_digits:
  assumes "z \<noteq> []" and "\<forall>c\<in>set z. \<exists>d<10. c = digit_char d"
  shows "parseInt z = Some (int (digits_value 10 z))"
    and "parseInt (CHR ''-'' # z) = Some (- int (digits_value 10 z))"
proof -
  from assms obtain c r where z: "z = c # r" by (cases z) auto
  from assms(2) have "\<forall>c\<in>set z. is_digit 10 c"
    by (auto simp: is_digit_def digit_char_cases)
  then have tw: "takeWhile (is_digit 10) z = z"
    by simp
  from assms(2) z have c: "\<not> is_ws c" "c \<noteq> CHR ''-''" "c \<noteq> CHR ''+''"
    by (auto simp: digit_char_cases)
  have not_digit: "a \<notin> set z" if "\<And>d. d < 10 \<Longrightarrow> digit_char d \<noteq> a" for a
  proof
    assume "a \<in> set z"
    with assms(2) have "\<exists>d<10. a = digit_char d" by (rule bspec)
    then obtain d where "d < 10" "a = digit_char d" by (elim exE conjE)
    with that [of d] show False by simp
  qed
  have sub: "set (take 2 z) \<subseteq> set z" by (rule set_take_subset)
  have nox: "CHR ''x'' \<notin> set (take 2 z)" "CHR ''X'' \<notin> set (take 2 z)"
    using not_digit [of "CHR ''x''"] not_digit [of "CHR ''X''"] digit_char_cases(5,6) sub
    by (meson subsetD)+
  have nohex: "take 2 z \<noteq> ''0x''" "take 2 z \<noteq> ''0X''"
  proof -
    show "take 2 z \<noteq> ''0x''"
    proof
      assume "take 2 z = ''0x''"
      then have "CHR ''x'' \<in> set (take 2 z)" by (simp only: list.set insert_iff simp_thms)
      with nox(1) show False by contradiction
    qed
    show "take 2 z \<noteq> ''0X''"
    proof
      assume "take 2 z = ''0X''"
      then have "CHR ''X'' \<in> set (take 2 z)" by (simp only: list.set insert_iff simp_thms)
      with nox(2) show False by contradiction
    qed
  qed
  have skip: "dropWhile is_ws z = z"
    using c(1) by (simp add: z)
  have sign: "(case z of [] \<Rightarrow> False | a # _ \<Rightarrow> a = CHR ''-'') = False"
    "(case z of [] \<Rightarrow> [] | a # b \<Rightarrow> if a = CHR ''-'' \<or> a = CHR ''+'' then b else z) = z"
    using c(2,3) by (simp_all add: z)
  show "parseInt z = Some (int (digits_value 10 z))"
    unfolding parseInt_def Let_def skip sign
    by (simp only: nohex tw assms(1) simp_thms if_False if_True mult_1)
  have minus: "dropWhile is_ws (CHR ''-'' # z) = CHR ''-'' # z"
    by (simp add: is_ws_def)
  show "parseInt (CHR ''-'' # z) = Some (- int (digits_value 10 z))"
    unfolding parseInt_def Let_def minus list.case
    by (simp only: nohex tw assms(1) simp_thms if_False if_True mult_minus1)
qed

lemma parseInt_number_text: "parseInt (number_text k) = Some k"
proof (cases "k < 0")
  case True
  then show ?thesis
    using parseInt_digits(2) [OF show_nat_nonempty show_nat_dec, of "nat (- k)"]
    by (simp add: number_text_def digits_value_show_nat)
next
  case False
  then show ?thesis
    using parseInt_digits(1) [OF show_nat_nonempty show_nat_dec, of "nat k"]
    by (simp add: number_text_def digits_value_show_nat)
qed

lemma parseInt_or0_number_text: "parseInt_or0 (number_text k) = k"
  by (simp add: parseInt_or0_def parseInt_number_text)

subsection \<open>Winner determination\<close>

lemma scan_cells_append:
  "scan_cells (xs @ ys) acc =
     (case scan_cells xs acc of Inl e \<Rightarrow> Inl e | Inr acc' \<Rightarrow> scan_cells ys acc')"
  by (induction xs arbitrary: acc) (auto split: sum.splits)

text \<open>Cells that do not exceed the running maximum leave the pair as it is.\<close>

lemma scan_cells_no_more:
  assumes "\<forall>c\<in>set cs. tap_counter c \<noteq> None \<and> displayed_count c \<le> m"
  shows "scan_cells cs (m, w) = Inr (m, w)"
  using assms
  by (induction cs) (auto simp: scan_cell_def displayed_count_def Let_def)

text \<open>
  Cells below some bound keep the running maximum below that bound and never throw, as
  long as they can be read.
\<close>

lemma scan_cells_below:
  assumes "\<forall>c\<in>set cs. readable c \<and> displayed_count c < b" and "m < b"
  shows "\<exists>m' w'. scan_cells cs (m, w) = Inr (m', w') \<and> m' < b"
  using assms
proof (induction cs arbitrary: m w)
  case Nil
  then show ?case by simp
next
  case (Cons c cs)
  then obtain t nm where c: "tap_counter c = Some t" "player_name c = Some nm"
    by (auto simp: readable_def)
  from Cons.prems have lt: "parseInt_or0 t < b"
    by (simp add: displayed_count_def c)
  show ?case
  proof (cases "parseInt_or0 t > m")
    case True
    then have "scan_cell c (m, w) = Inr (parseInt_or0 t, Some nm)"
      by (simp add: scan_cell_def c Let_def)
    then show ?thesis
      using Cons.IH [of "parseInt_or0 t" "Some nm"] Cons.prems lt by simp
  next
    case False
    then have "scan_cell c (m, w) = Inr (m, w)"
      by (simp add: scan_cell_def c Let_def)
    then show ?thesis
      using Cons.IH [of m w] Cons.prems by simp
  qed
qed

lemma scan_cells_first_max:
  assumes pre: "\<forall>c\<in>set pre. readable c \<and> displayed_count c < displayed_count x"
    and x: "readable x" "m < displayed_count x"
    and post: "\<forall>c\<in>set post. tap_counter c \<noteq> None \<and> displayed_count c \<le> displayed_count x"
  shows "scan_cells (pre @ x # post) (m, w) = Inr (displayed_count x, player_name x)"
proof -
  from scan_cells_below [OF pre x(2)] obtain m' w'
    where before: "scan_cells pre (m, w) = Inr (m', w')" and m': "m' < displayed_count x"
    by blast
  from x(1) obtain t nm where c: "tap_counter x = Some t" "player_name x = Some nm"
    by (auto simp: readable_def)
  from m' have at: "scan_cell x (m', w') = Inr (displayed_count x, player_name x)"
    by (simp add: scan_cell_def displayed_count_def c Let_def)
  show ?thesis
    by (simp add: scan_cells_append before at scan_cells_no_more [OF post])
qed

lemma scan_cells_readable:
  assumes "\<forall>c\<in>set cs. readable c"
  shows "\<exists>r. scan_cells cs acc = Inr r"
  using assms
proof (induction cs arbitrary: acc)
  case Nil
  then show ?case by simp
next
  case (Cons c cs)
  then obtain t nm where c: "tap_counter c = Some t" "player_name c = Some nm"
    by (auto simp: readable_def)
  then have "\<exists>r. scan_cell c acc = Inr r"
    by (simp add: scan_cell_def Let_def)
  then show ?case using Cons by auto
qed

lemma endGame_result:
  assumes "scan_cells (cells g) (0, None) = Inr (m, w)"
  shows "\<exists>g'. endGame g = Inr g' \<and> modals g' = modals g @ [winner_text w m] \<and>
           cells g' = cells g \<and> \<not> gameStarted g' \<and>
           oneshots g' = oneshots g @ [''./assets/audio/victory.mp3'']"
  using assms by (auto simp: endGame_def Let_def split: option.splits)

text \<open>
  C9.  When every cell displays a tap count of 0, and also when there is no cell at all,
  the scan ends with \<open>maxTaps = 0\<close> and \<open>winner = null\<close>, and \<^verbatim>\<open>endGame\<close>
  shows the modal with that null winner: nobody wins with zero taps.
\<close>

theorem endGame_no_taps:
  assumes "\<forall>c\<in>set (cells g). tap_counter c \<noteq> None \<and> displayed_count c = 0"
  shows "scan_cells (cells g) (0, None) = Inr (0, None) \<and>
         (\<exists>g'. endGame g = Inr g' \<and> modals g' = modals g @ [''null wins with 0 taps!''])"
proof -
  have scan: "scan_cells (cells g) (0, None) = Inr (0, None)"
    using assms by (intro scan_cells_no_more) simp
  have "winner_text None 0 = ''null wins with 0 taps!''"
    by (simp add: winner_text_def js_defs)
  with endGame_result [OF scan] scan show ?thesis by auto
qed

theorem endGame_no_taps_witness:
  "scan_cells [createPlayerCell ''a'' ''A'', createPlayerCell ''b'' ''B''] (0, None) =
     Inr (0, None) \<and>
   (\<exists>g'. endGame (game_init\<lparr>cells := [createPlayerCell ''a'' ''A'',
                                       createPlayerCell ''b'' ''B'']\<rparr>) = Inr g' \<and>
      modals g' = [''null wins with 0 taps!''])"
proof -
  let ?g = "game_init\<lparr>cells := [createPlayerCell ''a'' ''A'', createPlayerCell ''b'' ''B'']\<rparr>"
  have h: "\<forall>c\<in>set (cells ?g). tap_counter c \<noteq> None \<and> displayed_count c = 0"
    by (simp add: createPlayerCell_def displayed_count_def js_defs Let_def)
  have m: "modals ?g = []" "cells ?g = [createPlayerCell ''a'' ''A'', createPlayerCell ''b'' ''B'']"
    by (simp_all add: game_init_def)
  from endGame_no_taps [OF h] show ?thesis by (simp only: m append_Nil)
qed

text \<open>
  C1, amended.  When the cells can be read and the highest displayed count is greater
  than 0, the winner is the first cell in document order that displays it, and
  \<open>maxTaps\<close> is that count; \<^verbatim>\<open>endGame\<close> announces this winner.
\<close>

theorem endGame_first_max_wins:
  assumes "\<forall>c\<in>set (cells g). readable c"
    and "i < length (cells g)"
    and "0 < displayed_count (cells g ! i)"
    and "\<forall>j<length (cells g). displayed_count (cells g ! j) \<le> displayed_count (cells g ! i)"
    and "\<forall>j<i. displayed_count (cells g ! j) < displayed_count (cells g ! i)"
  shows "scan_cells (cells g) (0, None) =
           Inr (displayed_count (cells g ! i), player_name (cells g ! i)) \<and>
         (\<exists>g'. endGame g = Inr g' \<and>
            modals g' = modals g @
              [winner_text (player_name (cells g ! i)) (displayed_count (cells g ! i))])"
proof -
  let ?cs = "cells g" and ?x = "cells g ! i"
  have split: "?cs = take i ?cs @ ?x # drop (Suc i) ?cs"
    using assms(2) by (rule id_take_nth_drop)
  have pre: "\<forall>c\<in>set (take i ?cs). readable c \<and> displayed_count c < displayed_count ?x"
  proof
    fix c assume c: "c \<in> set (take i ?cs)"
    then obtain j where "j < i" "c = ?cs ! j"
      using assms(2) by (auto simp: in_set_conv_nth)
    moreover from c have "c \<in> set ?cs" by (rule in_set_takeD)
    ultimately show "readable c \<and> displayed_count c < displayed_count ?x"
      using assms(1,5) by blast
  qed
  have post: "\<forall>c\<in>set (drop (Suc i) ?cs).
                tap_counter c \<noteq> None \<and> displayed_count c \<le> displayed_count ?x"
  proof
    fix c assume "c \<in> set (drop (Suc i) ?cs)"
    then have c: "c \<in> set ?cs" by (rule in_set_dropD)
    then obtain j where "j < length ?cs" "c = ?cs ! j"
      by (auto simp: in_set_conv_nth)
    with assms(4) have "displayed_count c \<le> displayed_count ?x" by blast
    moreover from c assms(1) have "tap_counter c \<noteq> None" by (simp add: readable_def)
    ultimately show "tap_counter c \<noteq> None \<and> displayed_count c \<le> displayed_count ?x"
      by simp
  qed
  have x: "readable ?x"
    using assms(1,2) by simp
  have "scan_cells (take i ?cs @ ?x # drop (Suc i) ?cs) (0, None) =
          Inr (displayed_count ?x, player_name ?x)"
    using pre x assms(3) post by (rule scan_cells_first_max)
  with split have scan: "scan_cells ?cs (0, None) = Inr (displayed_count ?x, player_name ?x)"
    by simp
  from endGame_result [OF scan] scan show ?thesis by blast
qed

text \<open>The example of the specification: A has 3 taps, B and C have 5; B wins.\<close>

lemma three_cells:
  "displayed_count ((createPlayerCell ''a'' ''A'')\<lparr>tap_counter := Some ''3''\<rparr>) = 3"
  "displayed_count ((createPlayerCell ''b'' ''B'')\<lparr>tap_counter := Some ''5''\<rparr>) = 5"
  "displayed_count ((createPlayerCell ''c'' ''C'')\<lparr>tap_counter := Some ''5''\<rparr>) = 5"
  by (simp_all add: displayed_count_def createPlayerCell_def js_defs Let_def)

theorem endGame_first_max_wins_witness:
  "endGame (game_init\<lparr>cells :=
       [(createPlayerCell ''a'' ''A'')\<lparr>tap_counter := Some ''3''\<rparr>,
        (createPlayerCell ''b'' ''B'')\<lparr>tap_counter := Some ''5''\<rparr>,
        (createPlayerCell ''c'' ''C'')\<lparr>tap_counter := Some ''5''\<rparr>]\<rparr>) =
   Inr (game_init\<lparr>cells :=
       [(createPlayerCell ''a'' ''A'')\<lparr>tap_counter := Some ''3''\<rparr>,
        (createPlayerCell ''b'' ''B'')\<lparr>tap_counter := Some ''5''\<rparr>,
        (createPlayerCell ''c'' ''C'')\<lparr>tap_counter := Some ''5''\<rparr>],
      modals := [''B wins with 5 taps!''],
      oneshots := [''./assets/audio/victory.mp3'']\<rparr>) \<and>
   scan_cells
       [(createPlayerCell ''a'' ''A'')\<lparr>tap_counter := Some ''3''\<rparr>,
        (createPlayerCell ''b'' ''B'')\<lparr>tap_counter := Some ''5''\<rparr>,
        (createPlayerCell ''c'' ''C'')\<lparr>tap_counter := Some ''5''\<rparr>] (0, None) =
     Inr (5, Some ''B'')"
proof -
  let ?a = "(createPlayerCell ''a'' ''A'')\<lparr>tap_counter := Some ''3''\<rparr>"
  let ?b = "(createPlayerCell ''b'' ''B'')\<lparr>tap_counter := Some ''5''\<rparr>"
  let ?c = "(createPlayerCell ''c'' ''C'')\<lparr>tap_counter := Some ''5''\<rparr>"
  let ?g = "game_init\<lparr>cells := [?a, ?b, ?c]\<rparr>"
  have cs: "cells ?g = [?a, ?b, ?c]" by simp
  have h1: "\<forall>c\<in>set (cells ?g). readable c"
    by (simp add: readable_def createPlayerCell_def)
  have h2: "1 < length (cells ?g)" by simp
  have h3: "0 < displayed_count (cells ?g ! 1)"
    by (simp add: three_cells)
  have h4: "\<forall>j<length (cells ?g). displayed_count (cells ?g ! j) \<le> displayed_count (cells ?g ! 1)"
    by (simp add: three_cells less_Suc_eq numeral_3_eq_3 all_conj_distrib)
  have h5: "\<forall>j<1. displayed_count (cells ?g ! j) < displayed_count (cells ?g ! 1)"
    by (simp add: three_cells)
  have name: "player_name (cells ?g ! 1) = Some ''B''"
    by (simp add: createPlayerCell_def)
  have count: "displayed_count (cells ?g ! 1) = 5"
    by (simp add: three_cells)
  have run: "endGame ?g = Inr (?g\<lparr>modals := [''B wins with 5 taps!''],
      oneshots := [''./assets/audio/victory.mp3'']\<rparr>)"
    by (simp add: game_defs js_defs Let_def)
  have "scan_cells (cells ?g) (0, None) = Inr (5, Some ''B'')"
    using endGame_first_max_wins [OF h1 h2 h3 h4 h5] by (simp only: name count)
  then have "scan_cells [?a, ?b, ?c] (0, None) = Inr (5, Some ''B'')"
    by (simp only: cs)
  with run show ?thesis by (simp only: simp_thms)
qed

text \<open>
  C1 as stated fails for a tie at 0: with A and B both at 0 the first cell does not win;
  the winner stays \<^verbatim>\<open>null\<close>.
\<close>

theorem endGame_zero_tie_counterexample:
  "displayed_count (createPlayerCell ''a'' ''A'') = 0 \<and>
   displayed_count (createPlayerCell ''b'' ''B'') = 0 \<and>
   scan_cells [createPlayerCell ''a'' ''A'', createPlayerCell ''b'' ''B''] (0, None) =
     Inr (0, None) \<and>
   endGame (game_init\<lparr>cells := [createPlayerCell ''a'' ''A'', createPlayerCell ''b'' ''B'']\<rparr>) =
     Inr (game_init\<lparr>cells := [createPlayerCell ''a'' ''A'', createPlayerCell ''b'' ''B''],
           modals := [''null wins with 0 taps!''],
           oneshots := [''./assets/audio/victory.mp3'']\<rparr>)"
  by (simp add: displayed_count_def game_defs js_defs Let_def)

subsection \<open>Tap counting\<close>

lemma getElementById_Some:
  "getElementById i cs = Some k \<Longrightarrow> k < length cs \<and> cell_id (cs ! k) = i"
  by (induction cs arbitrary: k) (auto split: if_splits)

lemma getElementById_ids:
  "map cell_id cs = map cell_id cs' \<Longrightarrow> getElementById i cs = getElementById i cs'"
proof (induction cs arbitrary: cs')
  case Nil
  then show ?case by simp
next
  case (Cons c cs)
  then obtain c' rest where "cs' = c' # rest" by (cases cs') auto
  with Cons show ?case by auto
qed

text \<open>A tap never changes which element carries which id.\<close>

lemma showTapEffect_ids: "map cell_id (cells (showTapEffect q g)) = map cell_id (cells g)"
  by (auto simp: showTapEffect_def Let_def map_update list_update_same_conv
      dest: getElementById_Some split: option.splits)

text \<open>A tap for \<open>p\<close> advances the count in \<open>p\<close>'s cell by one and lights its flash.\<close>

lemma showTapEffect_same:
  assumes "player_cell p g = Some c" and "player_flash c \<noteq> None" and "tap_counter c \<noteq> None"
  shows "player_cell p (showTapEffect p g) =
           Some (c\<lparr>player_flash := Some True,
                   tap_counter := Some (number_text (displayed_count c + 1))\<rparr>)"
    and "oneshots (showTapEffect p g) = oneshots g @ [''./assets/audio/tap.mp3'']"
proof -
  from assms(1) obtain k where k: "getElementById (''player-'' @ p) (cells g) = Some k"
    and c: "c = cells g ! k"
    by (auto simp: player_cell_def)
  from k have len: "k < length (cells g)" by (simp add: getElementById_Some)
  from assms(2,3) obtain f t where ft: "player_flash c = Some f" "tap_counter c = Some t"
    by auto
  have same: "getElementById (''player-'' @ p) (cells (showTapEffect p g)) = Some k"
    using getElementById_ids [OF showTapEffect_ids] k by simp
  have "cells (showTapEffect p g) =
          (cells g)[k := c\<lparr>player_flash := Some True,
                            tap_counter := Some (number_text (parseInt_or0 t + 1))\<rparr>]"
    using k c ft by (simp add: showTapEffect_def Let_def)
  with len same show "player_cell p (showTapEffect p g) =
           Some (c\<lparr>player_flash := Some True,
                   tap_counter := Some (number_text (displayed_count c + 1))\<rparr>)"
    by (simp add: player_cell_def displayed_count_def ft)
  show "oneshots (showTapEffect p g) = oneshots g @ [''./assets/audio/tap.mp3'']"
    using k c ft by (simp add: showTapEffect_def Let_def)
qed

text \<open>A tap for another player leaves \<open>p\<close>'s cell as it is.\<close>

lemma showTapEffect_other:
  assumes "q \<noteq> p"
  shows "player_cell p (showTapEffect q g) = player_cell p g"
proof (cases "getElementById (''player-'' @ p) (cells g)")
  case None
  then have "getElementById (''player-'' @ p) (cells (showTapEffect q g)) = None"
    using getElementById_ids [OF showTapEffect_ids] by simp
  with None show ?thesis by (simp add: player_cell_def)
next
  case (Some k)
  then have same: "getElementById (''player-'' @ p) (cells (showTapEffect q g)) = Some k"
    using getElementById_ids [OF showTapEffect_ids] by simp
  from Some have idk: "cell_id (cells g ! k) = ''player-'' @ p"
    by (simp add: getElementById_Some)
  have "cells (showTapEffect q g) ! k = cells g ! k"
  proof (cases "getElementById (''player-'' @ q) (cells g)")
    case None
    then show ?thesis by (simp add: showTapEffect_def)
  next
    case (Some j)
    then have "cell_id (cells g ! j) = ''player-'' @ q"
      by (simp add: getElementById_Some)
    with idk assms have "j \<noteq> k" by auto
    with Some show ?thesis
      by (simp add: showTapEffect_def Let_def split: option.splits)
  qed
  with Some same show ?thesis by (simp add: player_cell_def)
qed

lemma displayed_count_bumped:
  "displayed_count (c\<lparr>player_flash := f, tap_counter := Some (number_text k)\<rparr>) = k"
  by (simp add: displayed_count_def parseInt_or0_number_text)

text \<open>
  Any sequence of tap events: the count in \<open>p\<close>'s cell grows by the number of events
  that name \<open>p\<close>.
\<close>

lemma tap_events_count:
  assumes "player_cell p g = Some c" and "player_flash c \<noteq> None" and "tap_counter c \<noteq> None"
  shows "\<exists>c'. player_cell p (fold onTapEvent ps g) = Some c' \<and>
           player_flash c' \<noteq> None \<and> tap_counter c' \<noteq> None \<and>
           displayed_count c' = displayed_count c + int (count_list ps p)"
  using assms
proof (induction ps arbitrary: g c)
  case Nil
  then show ?case by simp
next
  case (Cons q ps)
  show ?case
  proof (cases "q = p")
    case True
    let ?c1 = "c\<lparr>player_flash := Some True,
                  tap_counter := Some (number_text (displayed_count c + 1))\<rparr>"
    have "player_cell p (onTapEvent q g) = Some ?c1"
      using showTapEffect_same(1) [OF Cons.prems] True by (simp add: onTapEvent_def)
    from Cons.IH [OF this] True show ?thesis
      by (simp add: displayed_count_bumped add.assoc)
  next
    case False
    then have "player_cell p (onTapEvent q g) = Some c"
      using showTapEffect_other [of q p g] Cons.prems(1) by (simp add: onTapEvent_def)
    from Cons.IH [OF this Cons.prems(2,3)] False show ?thesis by simp
  qed
qed

text \<open>Tap events do not touch the transport session.\<close>

lemma deliver_tapEvent:
  "deliver l (TapEventMsg q) (n, g) = Inr (n, (onTapEvent q ^^ l) g)"
proof (induction l arbitrary: g)
  case 0
  show ?case by simp
next
  case (Suc l)
  show ?case by (simp add: on_message_def Suc.IH funpow_swap1)
qed

lemma tap_messages:
  assumes "k < length (sockets n)" and "listeners (sockets n ! k) = 1"
  shows "client_run (map (\<lambda>q. Receives k (TapEventMsg q)) ps) (n, g) =
           (n, fold onTapEvent ps g)"
proof (induction ps arbitrary: g)
  case Nil
  show ?case by simp
next
  case (Cons q ps)
  have "settle (client_step (Receives k (TapEventMsg q)) (n, g)) = (n, onTapEvent q g)"
    using assms by (simp add: client_step_def deliver_tapEvent settle_def del: deliver.simps)
  with Cons.IH [of "onTapEvent q g"] show ?case by simp
qed

text \<open>
  C5, amended.  Let \<open>p\<close> have a cell on the page, with its flash and its counter, and
  let the counts involved be integers the program computes exactly.  Then every call of
  the \<^verbatim>\<open>tapEvent\<close> callback for \<open>p\<close> raises the count displayed for \<open>p\<close> by exactly
  1, lights the flash of \<open>p\<close>'s cell and plays the tap sound.  On a socket that carries
  the listeners once, any sequence of received tap events, repeated ones included, raises
  the count by exactly the number of events for \<open>p\<close>: nothing is filtered out.  A tap
  event for a player who has no cell changes nothing.
\<close>

theorem tapEvent_counts_every_message:
  assumes "player_cell p g = Some c" and "player_flash c \<noteq> None" and "tap_counter c \<noteq> None"
    and "safe_integer (displayed_count c)" and "safe_integer (displayed_count c + 1)"
    and "safe_integer (displayed_count c + int (count_list ps p))"
    and "k < length (sockets n)" and "listeners (sockets n ! k) = 1"
  shows "(\<exists>c'. player_cell p (onTapEvent p g) = Some c' \<and>
            displayed_count c' = displayed_count c + 1 \<and> player_flash c' = Some True) \<and>
         oneshots (onTapEvent p g) = oneshots g @ [''./assets/audio/tap.mp3''] \<and>
         (\<exists>c'. player_cell p
                 (snd (client_run (map (\<lambda>q. Receives k (TapEventMsg q)) ps) (n, g))) = Some c' \<and>
            displayed_count c' = displayed_count c + int (count_list ps p)) \<and>
         (player_cell q g = None \<longrightarrow> onTapEvent q g = g)"
proof -
  note cell = assms(1-3)
  have "\<exists>c'. player_cell p (onTapEvent p g) = Some c' \<and>
            displayed_count c' = displayed_count c + 1 \<and> player_flash c' = Some True"
    using showTapEffect_same(1) [OF cell]
    by (simp add: onTapEvent_def displayed_count_bumped)
  moreover have "oneshots (onTapEvent p g) = oneshots g @ [''./assets/audio/tap.mp3'']"
    using showTapEffect_same(2) [OF cell] by (simp add: onTapEvent_def)
  moreover have "\<exists>c'. player_cell p
                 (snd (client_run (map (\<lambda>q. Receives k (TapEventMsg q)) ps) (n, g))) = Some c' \<and>
            displayed_count c' = displayed_count c + int (count_list ps p)"
    using tap_events_count [OF cell, of ps] tap_messages [OF assms(7,8), of ps g] by auto
  moreover have "player_cell q g = None \<longrightarrow> onTapEvent q g = g"
    by (auto simp: player_cell_def onTapEvent_def showTapEffect_def)
  ultimately show ?thesis by (intro conjI)
qed

text \<open>
  A page with cells for A and B, on a session that has connected once; taps arrive for
  a, b and a again.
\<close>

theorem tapEvent_counts_every_message_witness:
  "(\<exists>c'. player_cell ''a'' (onTapEvent ''a''
            (game_init\<lparr>cells := [createPlayerCell ''a'' ''A'', createPlayerCell ''b'' ''B'']\<rparr>)) =
            Some c' \<and> displayed_count c' = 1 \<and> player_flash c' = Some True) \<and>
   (\<exists>c'. player_cell ''a''
            (snd (client_run (map (\<lambda>q. Receives 0 (TapEventMsg q)) [''a'', ''b'', ''a''])
               (net_run [ConnectToServer, SocketConnects 0 (Str ''s2'') 1000] net_init,
                game_init\<lparr>cells := [createPlayerCell ''a'' ''A'',
                                     createPlayerCell ''b'' ''B'']\<rparr>))) =
            Some c' \<and> displayed_count c' = 2)"
proof -
  let ?g = "game_init\<lparr>cells := [createPlayerCell ''a'' ''A'', createPlayerCell ''b'' ''B'']\<rparr>"
  let ?n = "net_run [ConnectToServer, SocketConnects 0 (Str ''s2'') 1000] net_init"
  have cell: "player_cell ''a'' ?g = Some (createPlayerCell ''a'' ''A'')"
    by (simp add: player_cell_def createPlayerCell_def)
  have flash: "player_flash (createPlayerCell ''a'' ''A'') \<noteq> None"
    and counter: "tap_counter (createPlayerCell ''a'' ''A'') \<noteq> None"
    by (simp_all add: createPlayerCell_def)
  have zero: "displayed_count (createPlayerCell ''a'' ''A'') = 0"
    by (simp add: displayed_count_def createPlayerCell_def js_defs Let_def)
  have two: "int (count_list [''a'', ''b'', ''a''] ''a'') = 2"
    by simp
  have range: "safe_integer (displayed_count (createPlayerCell ''a'' ''A''))"
    "safe_integer (displayed_count (createPlayerCell ''a'' ''A'') + 1)"
    "safe_integer (displayed_count (createPlayerCell ''a'' ''A'') +
                   int (count_list [''a'', ''b'', ''a''] ''a''))"
    unfolding zero two by (simp_all add: safe_integer_def)
  have socket: "0 < length (sockets ?n)" "listeners (sockets ?n ! 0) = 1"
    by (simp_all add: net_defs)
  from tapEvent_counts_every_message [OF cell flash counter range socket]
  show ?thesis by (simp only: zero two add_0)
qed

text \<open>
  C5 as stated fails where the player has no cell, which is so for every player on the
  page as it is loaded: the tap event for a is received, and no counter moves and no
  feedback is given, with or without a cell for somebody else.
\<close>

theorem tapEvent_without_cell_counterexample:
  "client_step (Receives 0 (TapEventMsg ''a''))
     (net_run [ConnectToServer, SocketConnects 0 (Str ''s2'') 1000] net_init, game_init) =
   Inr (net_run [ConnectToServer, SocketConnects 0 (Str ''s2'') 1000] net_init, game_init) \<and>
   client_step (Receives 0 (TapEventMsg ''a''))
     (net_run [ConnectToServer, SocketConnects 0 (Str ''s2'') 1000] net_init,
      game_init\<lparr>cells := [createPlayerCell ''b'' ''B'']\<rparr>) =
   Inr (net_run [ConnectToServer, SocketConnects 0 (Str ''s2'') 1000] net_init,
        game_init\<lparr>cells := [createPlayerCell ''b'' ''B'']\<rparr>)"
  by (simp add: net_defs game_defs)

text \<open>
  When the same socket connects a second time the listeners are on it twice, and one
  tap event is then counted twice.
\<close>

lemma listeners_after_reconnect:
  "map listeners (sockets (net_run [ConnectToServer, SocketConnects 0 (Str ''s2'') 1000,
      SocketDrops 0, SocketConnects 0 (Str ''s3'') 9000] net_init)) = [2] \<and>
   map tap_counter (cells (snd (client_run [Receives 0 (TapEventMsg ''a'')]
     (net_run [ConnectToServer, SocketConnects 0 (Str ''s2'') 1000,
               SocketDrops 0, SocketConnects 0 (Str ''s3'') 9000] net_init,
      game_init\<lparr>cells := [createPlayerCell ''a'' ''A'']\<rparr>)))) = [Some ''2'']"
  by (simp add: net_defs game_defs js_defs)

subsection \<open>The end of a round\<close>

text \<open>On cells that can be read, \<^verbatim>\<open>endGame\<close> completes and shows one more modal.\<close>

lemma endGame_readable:
  assumes "\<forall>c\<in>set (cells g). readable c"
  shows "\<exists>g'. endGame g = Inr g' \<and> length (modals g') = length (modals g) + 1 \<and>
           cells g' = cells g \<and> \<not> gameStarted g' \<and>
           (gameEndTimeout g = None \<longrightarrow> timeouts g' = timeouts g \<and> gameEndTimeout g' = None) \<and>
           (\<forall>t. gameEndTimeout g = Some t \<and> t \<noteq> 0 \<longrightarrow>
                timeouts g' = clearTimeout t (timeouts g) \<and> gameEndTimeout g' = None)"
proof -
  have cs: "cells (g\<lparr>gameStarted := False\<rparr>) = cells g"
           "\<And>t. cells (g\<lparr>gameStarted := False, timeouts := t, gameEndTimeout := None\<rparr>) = cells g"
    by simp_all
  from scan_cells_readable [OF assms] obtain m w
    where "scan_cells (cells g) (0, None) = Inr (m, w)" by fastforce
  then show ?thesis
    by (auto simp: endGame_def Let_def split: option.splits)
qed

lemma deliver_gameStateUpdate:
  assumes "\<forall>c\<in>set (cells g). readable c"
  shows "\<exists>g'. deliver l (GameStateUpdateMsg b) (n, g) = Inr (n, g') \<and>
           length (modals g') = length (modals g) + (if b then l else 0) \<and>
           cells g' = cells g"
  using assms
proof (induction l arbitrary: g)
  case 0
  show ?case by simp
next
  case (Suc l)
  show ?case
  proof (cases b)
    case True
    from endGame_readable [OF Suc.prems] obtain g1
      where g1: "endGame g = Inr g1" "length (modals g1) = length (modals g) + 1"
        "cells g1 = cells g"
      by blast
    from Suc.prems g1(3) have "\<forall>c\<in>set (cells g1). readable c" by simp
    from Suc.IH [OF this] obtain g'
      where "deliver l (GameStateUpdateMsg b) (n, g1) = Inr (n, g')"
        and "length (modals g') = length (modals g1) + (if b then l else 0)"
        and "cells g' = cells g1"
      by blast
    with g1 True show ?thesis
      by (simp add: on_message_def onGameStateUpdate_def)
  next
    case False
    with Suc.IH [OF Suc.prems] show ?thesis
      by (simp add: on_message_def onGameStateUpdate_def)
  qed
qed

text \<open>
  Every message with the ended flag ends the round once for each time the listeners are
  on the socket.
\<close>

lemma game_state_updates:
  assumes "\<forall>c\<in>set (cells g). readable c" and "k < length (sockets n)"
  shows "length (modals (snd (client_run (map (\<lambda>b. Receives k (GameStateUpdateMsg b)) bs)
                                (n, g)))) =
           length (modals g) + listeners (sockets n ! k) * count_list bs True"
  using assms(1)
proof (induction bs arbitrary: g)
  case Nil
  then show ?case by simp
next
  case (Cons b bs)
  from deliver_gameStateUpdate [OF Cons.prems, of "listeners (sockets n ! k)" b n] obtain g'
    where g': "deliver (listeners (sockets n ! k)) (GameStateUpdateMsg b) (n, g) = Inr (n, g')"
      "length (modals g') = length (modals g) + (if b then listeners (sockets n ! k) else 0)"
      "cells g' = cells g"
    by blast
  then have step: "settle (client_step (Receives k (GameStateUpdateMsg b)) (n, g)) = (n, g')"
    using assms(2) by (simp add: client_step_def settle_def)
  from Cons.prems g'(3) have "\<forall>c\<in>set (cells g'). readable c" by simp
  from Cons.IH [OF this] step g'(2) show ?case by simp
qed

lemma host_round_timer:
  assumes readable: "\<forall>c\<in>set (cells g). readable c"
    and host: "isHost g" and idle: "timeouts g = []" and handle: "0 < next_timeout g"
    and online: "socket_connected n"
  shows "timeouts (startGame g) = [(next_timeout g, 60000)]"
    and "\<exists>g'. round_timer_fires (next_timeout g) (n, startGame g) =
                 Inr (emit (UpdateGameStateMsg True) n, g') \<and>
               length (modals g') = length (modals g) + 1 \<and>
               timeouts g' = [] \<and> gameEndTimeout g' = None \<and> \<not> gameStarted g'"
proof -
  let ?t = "next_timeout g"
  let ?g1 = "startGame g"
  have g1: "?g1 = g\<lparr>gameStarted := True, gameEndTimeout := Some ?t,
                     timeouts := [(?t, 60000)], next_timeout := ?t + 1\<rparr>"
    using host idle by (simp add: startGame_def startGameTimer_def GAME_DURATION_def Let_def)
  show "timeouts ?g1 = [(?t, 60000)]" by (simp add: g1)
  let ?g0 = "?g1\<lparr>timeouts := clearTimeout ?t (timeouts ?g1)\<rparr>"
  have g0: "timeouts ?g0 = []" "gameEndTimeout ?g0 = Some ?t" "modals ?g0 = modals g"
    "cells ?g0 = cells g"
    by (simp_all add: g1 clearTimeout_def)
  from readable g0(4) have "\<forall>c\<in>set (cells ?g0). readable c" by simp
  from endGame_readable [OF this] obtain g'
    where g': "endGame ?g0 = Inr g'" "length (modals g') = length (modals ?g0) + 1"
      "\<not> gameStarted g'"
      "\<forall>t. gameEndTimeout ?g0 = Some t \<and> t \<noteq> 0 \<longrightarrow>
           timeouts g' = clearTimeout t (timeouts ?g0) \<and> gameEndTimeout g' = None"
    by blast
  from g'(4) g0(1,2) handle have "timeouts g' = []" "gameEndTimeout g' = None"
    by (simp_all add: clearTimeout_def)
  moreover have "round_timer_fires ?t (n, ?g1) = Inr (emit (UpdateGameStateMsg True) n, g')"
    using g'(1) online by (simp add: round_timer_fires_def updateGameState_def g1 Let_def)
  ultimately show "\<exists>g'. round_timer_fires ?t (n, ?g1) =
                 Inr (emit (UpdateGameStateMsg True) n, g') \<and>
               length (modals g') = length (modals g) + 1 \<and>
               timeouts g' = [] \<and> gameEndTimeout g' = None \<and> \<not> gameStarted g'"
    using g'(2,3) g0(3) by auto
qed

text \<open>
  C2, amended.  With cells that can be read: on a socket that carries the listeners
  once, a client runs \<^verbatim>\<open>endGame\<close> once for every \<^verbatim>\<open>gameStateUpdate\<close> message whose
  \<^verbatim>\<open>gameEnded\<close> is true, so the number of winner modals grows by the number of such
  messages.  On a connected host with no round timer pending, \<^verbatim>\<open>startGame\<close> sets
  exactly one timer, of 60000 ms; when it fires,
  \<^verbatim>\<open>updateGameState({gameEnded: true})\<close> is sent, \<^verbatim>\<open>endGame\<close> runs once, and no
  round timer is left.
\<close>

theorem endGame_once_per_signal:
  assumes "\<forall>c\<in>set (cells g). readable c"
  shows "(k < length (sockets n) \<and> listeners (sockets n ! k) = 1 \<longrightarrow>
            length (modals (snd (client_run (map (\<lambda>b. Receives k (GameStateUpdateMsg b)) bs)
                                   (n, g)))) =
              length (modals g) + count_list bs True) \<and>
         (isHost g \<and> timeouts g = [] \<and> 0 < next_timeout g \<and> socket_connected n \<longrightarrow>
            timeouts (startGame g) = [(next_timeout g, 60000)] \<and>
            (\<exists>g'. round_timer_fires (next_timeout g) (n, startGame g) =
                     Inr (emit (UpdateGameStateMsg True) n, g') \<and>
                   length (modals g') = length (modals g) + 1 \<and>
                   timeouts g' = [] \<and> gameEndTimeout g' = None \<and> \<not> gameStarted g'))"
proof (intro conjI impI)
  assume "k < length (sockets n) \<and> listeners (sockets n ! k) = 1"
  then have k: "k < length (sockets n)" and once: "listeners (sockets n ! k) = 1"
    by simp_all
  from game_state_updates [OF assms k, of bs] once
  show "length (modals (snd (client_run (map (\<lambda>b. Receives k (GameStateUpdateMsg b)) bs)
                                   (n, g)))) =
          length (modals g) + count_list bs True"
    by simp
next
  assume host: "isHost g \<and> timeouts g = [] \<and> 0 < next_timeout g \<and> socket_connected n"
  then show "timeouts (startGame g) = [(next_timeout g, 60000)]"
    using host_round_timer(1) [OF assms] by blast
  from host show "\<exists>g'. round_timer_fires (next_timeout g) (n, startGame g) =
                     Inr (emit (UpdateGameStateMsg True) n, g') \<and>
                   length (modals g') = length (modals g) + 1 \<and>
                   timeouts g' = [] \<and> gameEndTimeout g' = None \<and> \<not> gameStarted g'"
    using host_round_timer(2) [OF assms] by blast
qed

text \<open>
  A host with one player cell, on a session that has connected once: three updates of
  which two carry the ended flag give two modals; the host's own timer gives one.
\<close>

theorem endGame_once_per_signal_witness:
  "length (modals (snd (client_run
      (map (\<lambda>b. Receives 0 (GameStateUpdateMsg b)) [True, False, True])
      (net_run [ConnectToServer, SocketConnects 0 (Str ''s1'') 1000] net_init,
       addPlayer ''You (Host)'' 1 True (game_init\<lparr>cells := [createPlayerCell ''a'' ''A'']\<rparr>))))) = 2 \<and>
   timeouts (startGame
      (addPlayer ''You (Host)'' 1 True (game_init\<lparr>cells := [createPlayerCell ''a'' ''A'']\<rparr>))) =
     [(1, 60000)] \<and>
   (\<exists>g'. round_timer_fires 1
            (net_run [ConnectToServer, SocketConnects 0 (Str ''s1'') 1000] net_init,
             startGame (addPlayer ''You (Host)'' 1 True
               (game_init\<lparr>cells := [createPlayerCell ''a'' ''A'']\<rparr>))) =
          Inr (emit (UpdateGameStateMsg True)
                 (net_run [ConnectToServer, SocketConnects 0 (Str ''s1'') 1000] net_init), g') \<and>
          length (modals g') = 1 \<and> timeouts g' = [])"
proof -
  let ?g = "addPlayer ''You (Host)'' 1 True (game_init\<lparr>cells := [createPlayerCell ''a'' ''A'']\<rparr>)"
  let ?n = "net_run [ConnectToServer, SocketConnects 0 (Str ''s1'') 1000] net_init"
  have cells: "\<forall>c\<in>set (cells ?g). readable c"
    by (simp add: addPlayer_def game_init_def createPlayerCell_def readable_def)
  have host: "isHost ?g \<and> timeouts ?g = [] \<and> 0 < next_timeout ?g \<and> socket_connected ?n"
    by (simp add: addPlayer_def game_init_def net_defs)
  have socket: "0 < length (sockets ?n) \<and> listeners (sockets ?n ! 0) = 1"
    by (simp add: net_defs)
  have facts: "modals ?g = []" "next_timeout ?g = 1" "count_list [True, False, True] True = 2"
    by (simp_all add: addPlayer_def game_init_def)
  note inst = endGame_once_per_signal [OF cells, of 0 ?n "[True, False, True]"]
  have "length (modals (snd (client_run
            (map (\<lambda>b. Receives 0 (GameStateUpdateMsg b)) [True, False, True]) (?n, ?g)))) =
          length (modals ?g) + count_list [True, False, True] True"
    using inst socket by blast
  then have messages: "length (modals (snd (client_run
            (map (\<lambda>b. Receives 0 (GameStateUpdateMsg b)) [True, False, True]) (?n, ?g)))) = 2"
    by (simp only: facts list.size add_0)
  have "timeouts (startGame ?g) = [(next_timeout ?g, 60000)] \<and>
        (\<exists>g'. round_timer_fires (next_timeout ?g) (?n, startGame ?g) =
                 Inr (emit (UpdateGameStateMsg True) ?n, g') \<and>
               length (modals g') = length (modals ?g) + 1 \<and>
               timeouts g' = [] \<and> gameEndTimeout g' = None \<and> \<not> gameStarted g')"
    using inst host by blast
  then have timer: "timeouts (startGame ?g) = [(1, 60000)] \<and>
        (\<exists>g'. round_timer_fires 1 (?n, startGame ?g) =
                 Inr (emit (UpdateGameStateMsg True) ?n, g') \<and>
               length (modals g') = 1 \<and> timeouts g' = [])"
    unfolding facts by auto
  from messages timer show ?thesis by (rule conjI)
qed

text \<open>
  C2 as stated fails on a client that receives the ended flag twice, on a socket that
  has connected once: \<^verbatim>\<open>endGame\<close> runs for each message and the winner is announced
  twice.
\<close>

theorem endGame_repeats_counterexample:
  "modals (snd (client_run
      [Receives 0 GameStartingMsg, Receives 0 (TapEventMsg ''a''),
       Receives 0 (GameStateUpdateMsg True), Receives 0 (GameStateUpdateMsg True)]
      (net_run [ConnectToServer, SocketConnects 0 (Str ''s2'') 1000] net_init,
       game_init\<lparr>cells := [createPlayerCell ''a'' ''A'']\<rparr>))) =
   [''A wins with 1 taps!'', ''A wins with 1 taps!'']"
  by (simp add: net_defs game_defs js_defs)

subsection \<open>The heartbeat\<close>

lemma heartbeat_inv_frame:
  assumes "next_timer n' = next_timer n" and "pingInterval n' = pingInterval n"
    and "intervals n' = intervals n"
  shows "heartbeat_inv n' = heartbeat_inv n"
  by (simp add: heartbeat_inv_def assms)

lemma performCreateRoom_inv:
  "heartbeat_inv (settle (performCreateRoom args n)) = heartbeat_inv n"
  by (simp add: performCreateRoom_def heartbeat_inv_def settle_def emit_def Let_def
      split: list.splits)

lemma run_once_inv: "heartbeat_inv (settle (run_once codes n)) = heartbeat_inv n"
proof (induction codes arbitrary: n)
  case Nil
  then show ?case by (simp add: settle_def)
next
  case (Cons roomCode codes)
  show ?case
  proof (cases "performCreateRoom [roomCode] n")
    case (Inl e)
    with performCreateRoom_inv [of "[roomCode]" n] show ?thesis by simp
  next
    case (Inr n')
    with performCreateRoom_inv [of "[roomCode]" n] Cons.IH [of n'] show ?thesis
      by (simp add: settle_def)
  qed
qed

lemma connectToServer_inv: "heartbeat_inv (connectToServer n) = heartbeat_inv n"
  by (simp add: connectToServer_def heartbeat_inv_def)

lemma createRoom_inv: "heartbeat_inv (settle (createRoom args n)) = heartbeat_inv n"
proof (cases "socket_connected n")
  case True
  then show ?thesis by (simp add: createRoom_def performCreateRoom_inv)
next
  case False
  then show ?thesis
    by (simp add: createRoom_def connectToServer_def heartbeat_inv_def settle_def Let_def)
qed

text \<open>The \<^verbatim>\<open>connect\<close> handler replaces the live interval by a fresh one.\<close>

lemma connect_handler_inv:
  assumes "heartbeat_inv n"
  shows "heartbeat_inv (connect_handler now n)"
    and "intervals (connect_handler now n) = [next_timer n]"
  using assms
  by (auto simp: connect_handler_def setupSocketEventHandlers_def heartbeat_inv_def Let_def
      split: option.splits list.splits)

lemma socket_connects_inv:
  assumes "heartbeat_inv n"
  shows "heartbeat_inv (settle (socket_connects k sid now n))"
proof (cases "k < length (sockets n)")
  case True
  let ?n1 = "n\<lparr>sockets := (sockets n)[k := (sockets n ! k)\<lparr>connected := True, sock_id := sid,
                                               once_connect := []\<rparr>]\<rparr>"
  from assms have "heartbeat_inv ?n1" by (simp add: heartbeat_inv_def)
  then have "heartbeat_inv (connect_handler now ?n1)" by (rule connect_handler_inv)
  with True show ?thesis by (simp add: socket_connects_def Let_def run_once_inv)
next
  case False
  with assms show ?thesis by (simp add: socket_connects_def settle_def)
qed

lemma heartbeat_step_inv:
  assumes "heartbeat_inv n"
  shows "heartbeat_inv (settle (heartbeat now n))"
  using assms
  by (auto simp: heartbeat_def heartbeat_inv_def settle_def emit_def Let_def
      split: list.splits option.splits)

lemma net_step_inv:
  assumes "heartbeat_inv n"
  shows "heartbeat_inv (settle (net_step ev n))"
proof (cases ev)
  case ConnectToServer
  with assms show ?thesis by (simp add: net_step_def settle_def connectToServer_inv)
next
  case (SocketConnects k sid now)
  with socket_connects_inv [OF assms] show ?thesis by (simp add: net_step_def)
next
  case (SocketDrops k)
  with assms show ?thesis
    by (simp add: net_step_def settle_def socket_drops_def heartbeat_inv_def)
next
  case (HeartbeatFires i now)
  with heartbeat_step_inv [OF assms] assms show ?thesis
    by (simp add: net_step_def settle_def)
next
  case (ReconnectFires t)
  with assms show ?thesis
    by (simp add: net_step_def settle_def connectToServer_def heartbeat_inv_def)
next
  case (PongArrives now)
  with assms show ?thesis
    by (simp add: net_step_def settle_def on_pong_def heartbeat_inv_def)
next
  case (CreateRoomCalled args)
  with assms show ?thesis by (simp add: net_step_def createRoom_inv)
next
  case (UpdatePlayerInfoCalled data)
  with assms show ?thesis
    by (simp add: net_step_def settle_def updatePlayerInfo_def emit_def heartbeat_inv_def
        Let_def split: list.splits)
qed

text \<open>What holds at the start and after each turn holds after every run.\<close>

lemma net_run_inv: "heartbeat_inv n \<Longrightarrow> heartbeat_inv (net_run evs n)"
  by (induction evs arbitrary: n) (simp_all add: net_step_inv)

lemma net_init_inv: "heartbeat_inv net_init"
  by (simp add: heartbeat_inv_def net_init_def)

lemma heartbeat_inv_live: "heartbeat_inv n \<Longrightarrow> length (intervals n) \<le> 1"
  by (auto simp: heartbeat_inv_def split: option.splits)

lemma heartbeat_overdue:
  assumes "heartbeat_inv n" and "socket_connected n"
    and "pong_overdue now (lastPongReceived n)"
  shows "\<exists>n'. heartbeat now n = Inr n' \<and> intervals n' = [] \<and> \<not> socket_connected n' \<and>
           reconnects n' = reconnects n @ [(next_timer n, 1000)]"
  using assms
  by (auto simp: heartbeat_def heartbeat_inv_def socket_connected_def emit_def Let_def
      split: list.splits option.splits)

lemma heartbeat_in_time:
  assumes "socket_connected n" and "\<not> pong_overdue now (lastPongReceived n)"
  shows "heartbeat now n = Inr (emit PingMsg n)"
  using assms
  by (auto simp: heartbeat_def socket_connected_def emit_def Let_def split: list.splits)

lemma heartbeat_disconnected:
  assumes "\<not> socket_connected n"
  shows "settle (heartbeat now n) = n"
  using assms
  by (auto simp: heartbeat_def socket_connected_def settle_def split: list.splits)

text \<open>
  C6, amended.  In every state the session can reach, at most one heartbeat interval is
  live.  When the heartbeat fires while the socket reports connected and the last pong is
  more than 60000 ms old, the interval is cancelled, the socket is disconnected, and
  exactly one reconnect is scheduled, 1000 ms ahead.  With a pong in time it only sends
  a ping.  While the socket does not report connected it does nothing at all.
\<close>

theorem heartbeat_recovery:
  assumes "n = net_run evs net_init"
  shows "length (intervals n) \<le> 1 \<and>
         (socket_connected n \<and> pong_overdue now (lastPongReceived n) \<longrightarrow>
            (\<exists>n'. heartbeat now n = Inr n' \<and> intervals n' = [] \<and> \<not> socket_connected n' \<and>
                   reconnects n' = reconnects n @ [(next_timer n, 1000)])) \<and>
         (socket_connected n \<and> \<not> pong_overdue now (lastPongReceived n) \<longrightarrow>
            heartbeat now n = Inr (emit PingMsg n)) \<and>
         (\<not> socket_connected n \<longrightarrow> settle (heartbeat now n) = n)"
proof -
  have inv: "heartbeat_inv n"
    unfolding assms using net_init_inv by (rule net_run_inv)
  show ?thesis
  proof (intro conjI impI)
    show "length (intervals n) \<le> 1"
      using inv by (rule heartbeat_inv_live)
  next
    assume "socket_connected n \<and> pong_overdue now (lastPongReceived n)"
    then have "socket_connected n" and "pong_overdue now (lastPongReceived n)"
      by simp_all
    with inv show "\<exists>n'. heartbeat now n = Inr n' \<and> intervals n' = [] \<and>
        \<not> socket_connected n' \<and> reconnects n' = reconnects n @ [(next_timer n, 1000)]"
      by (rule heartbeat_overdue)
  next
    assume "socket_connected n \<and> \<not> pong_overdue now (lastPongReceived n)"
    then have "socket_connected n" and "\<not> pong_overdue now (lastPongReceived n)"
      by simp_all
    then show "heartbeat now n = Inr (emit PingMsg n)"
      by (rule heartbeat_in_time)
  next
    assume "\<not> socket_connected n"
    then show "settle (heartbeat now n) = n"
      by (rule heartbeat_disconnected)
  qed
qed

theorem heartbeat_recovery_witness:
  "intervals (net_run [ConnectToServer, SocketConnects 0 (Str ''s1'') 1000] net_init) = [1] \<and>
   socket_connected (net_run [ConnectToServer, SocketConnects 0 (Str ''s1'') 1000] net_init) \<and>
   pong_overdue 76000
     (lastPongReceived (net_run [ConnectToServer, SocketConnects 0 (Str ''s1'') 1000] net_init)) \<and>
   (\<exists>n'. heartbeat 76000
            (net_run [ConnectToServer, SocketConnects 0 (Str ''s1'') 1000] net_init) = Inr n' \<and>
          intervals n' = [] \<and> \<not> socket_connected n' \<and> reconnects n' = [(2, 1000)])"
proof -
  let ?n = "net_run [ConnectToServer, SocketConnects 0 (Str ''s1'') 1000] net_init"
  have facts: "intervals ?n = [1]" "socket_connected ?n"
    "pong_overdue 76000 (lastPongReceived ?n)" "reconnects ?n = []" "next_timer ?n = 2"
    by (simp_all add: net_defs)
  have "\<exists>n'. heartbeat 76000 ?n = Inr n' \<and> intervals n' = [] \<and> \<not> socket_connected n' \<and>
          reconnects n' = reconnects ?n @ [(next_timer ?n, 1000)]"
    using heartbeat_recovery [OF refl, of "[ConnectToServer, SocketConnects 0 (Str ''s1'') 1000]" 76000]
      facts(2,3) by (simp only: simp_thms)
  then have "\<exists>n'. heartbeat 76000 ?n = Inr n' \<and> intervals n' = [] \<and> \<not> socket_connected n' \<and>
          reconnects n' = [(2, 1000)]"
    by (simp only: facts append_Nil)
  with facts(1-3) show ?thesis by (simp only: simp_thms)
qed

text \<open>
  C6 as stated fails when the transport has dropped: the socket no longer reports
  connected, the last pong is 75 seconds old, the heartbeat fires, and nothing happens:
  the interval stays live and no reconnect is scheduled.
\<close>

theorem heartbeat_idle_counterexample:
  "pong_overdue 76000 (lastPongReceived
     (net_run [ConnectToServer, SocketConnects 0 (Str ''s1'') 1000, SocketDrops 0] net_init)) \<and>
   net_step (HeartbeatFires 1 76000)
     (net_run [ConnectToServer, SocketConnects 0 (Str ''s1'') 1000, SocketDrops 0] net_init) =
   Inr (net_run [ConnectToServer, SocketConnects 0 (Str ''s1'') 1000, SocketDrops 0] net_init) \<and>
   intervals
     (net_run [ConnectToServer, SocketConnects 0 (Str ''s1'') 1000, SocketDrops 0] net_init) = [1] \<and>
   reconnects
     (net_run [ConnectToServer, SocketConnects 0 (Str ''s1'') 1000, SocketDrops 0] net_init) = []"
  by (simp add: net_defs)

subsection \<open>Sending while disconnected\<close>

lemma console_apart:
  assumes "a\<lparr>console := []\<rparr> = b\<lparr>console := []\<rparr>"
  shows "a = b\<lparr>console := console a\<rparr>"
proof -
  have "a = (a\<lparr>console := []\<rparr>)\<lparr>console := console a\<rparr>" by simp
  also have "\<dots> = (b\<lparr>console := []\<rparr>)\<lparr>console := console a\<rparr>" by (simp only: assms)
  also have "\<dots> = b\<lparr>console := console a\<rparr>" by simp
  finally show ?thesis .
qed

lemma performCreateRoom_console:
  "performCreateRoom args (n\<lparr>console := c\<rparr>) =
     (case performCreateRoom args n of
        Inl (e, m) \<Rightarrow> Inl (e, m\<lparr>console := c @ [''Creating room with code:'']\<rparr>)
      | Inr m \<Rightarrow> Inr (m\<lparr>console := c @ [''Creating room with code:'']\<rparr>))"
  by (simp add: performCreateRoom_def emit_def Let_def split: list.splits)

lemma run_once_console:
  "(settle (run_once codes (n\<lparr>console := c\<rparr>)))\<lparr>console := []\<rparr> =
   (settle (run_once codes n))\<lparr>console := []\<rparr>"
proof (induction codes arbitrary: n c)
  case Nil
  show ?case by (simp add: settle_def)
next
  case (Cons roomCode codes)
  show ?case
  proof (cases "performCreateRoom [roomCode] n")
    case (Inl failure)
    then show ?thesis
      by (cases failure) (simp add: performCreateRoom_console settle_def)
  next
    case (Inr m)
    with Cons.IH [of "c @ [''Creating room with code:'']" m] show ?thesis
      by (simp add: performCreateRoom_console)
  qed
qed

lemma connect_handler_console:
  "connect_handler now (n\<lparr>console := c\<rparr>) =
     (connect_handler now n)\<lparr>console := c @ [''Connected to server'']\<rparr>"
  by (simp add: connect_handler_def setupSocketEventHandlers_def Let_def
      split: option.splits list.splits)

lemma socket_connects_console:
  "(settle (socket_connects k sid now (n\<lparr>console := c\<rparr>)))\<lparr>console := []\<rparr> =
   (settle (socket_connects k sid now n))\<lparr>console := []\<rparr>"
proof (cases "k < length (sockets n)")
  case True
  let ?n1 = "n\<lparr>sockets := (sockets n)[k := (sockets n ! k)\<lparr>connected := True, sock_id := sid,
                                               once_connect := []\<rparr>]\<rparr>"
  let ?codes = "once_connect (sockets n ! k)"
  have swap: "(n\<lparr>console := c\<rparr>)\<lparr>sockets := sockets ?n1\<rparr> = ?n1\<lparr>console := c\<rparr>"
    by simp
  have "socket_connects k sid now (n\<lparr>console := c\<rparr>) =
          run_once ?codes (connect_handler now ((n\<lparr>console := c\<rparr>)\<lparr>sockets := sockets ?n1\<rparr>))"
    using True by (simp add: socket_connects_def Let_def)
  also have "\<dots> = run_once ?codes (connect_handler now (?n1\<lparr>console := c\<rparr>))"
    by (simp only: swap)
  also have "\<dots> = run_once ?codes
                      ((connect_handler now ?n1)\<lparr>console := c @ [''Connected to server'']\<rparr>)"
    by (simp only: connect_handler_console)
  finally have "(settle (socket_connects k sid now (n\<lparr>console := c\<rparr>)))\<lparr>console := []\<rparr> =
                (settle (run_once ?codes (connect_handler now ?n1)))\<lparr>console := []\<rparr>"
    by (simp only: run_once_console)
  moreover have "socket_connects k sid now n = run_once ?codes (connect_handler now ?n1)"
    using True by (simp add: socket_connects_def Let_def)
  ultimately show ?thesis by simp
next
  case False
  then show ?thesis by (simp add: socket_connects_def settle_def)
qed

lemma heartbeat_console:
  "(settle (heartbeat now (n\<lparr>console := c\<rparr>)))\<lparr>console := []\<rparr> =
   (settle (heartbeat now n))\<lparr>console := []\<rparr>"
  by (simp add: heartbeat_def settle_def emit_def Let_def split: list.splits option.splits)

lemma createRoom_console:
  "(settle (createRoom args (n\<lparr>console := c\<rparr>)))\<lparr>console := []\<rparr> =
   (settle (createRoom args n))\<lparr>console := []\<rparr>"
proof (cases "socket_connected n")
  case True
  then have "socket_connected (n\<lparr>console := c\<rparr>)" by (simp add: socket_connected_def)
  with True show ?thesis
    by (cases "performCreateRoom [arg args 0] n")
       (auto simp: createRoom_def performCreateRoom_console settle_def)
next
  case False
  then have "\<not> socket_connected (n\<lparr>console := c\<rparr>)" by (simp add: socket_connected_def)
  with False show ?thesis
    by (simp add: createRoom_def connectToServer_def socket_connected_def settle_def Let_def)
qed

lemma net_step_console:
  "(settle (net_step ev (n\<lparr>console := c\<rparr>)))\<lparr>console := []\<rparr> =
   (settle (net_step ev n))\<lparr>console := []\<rparr>"
proof (cases ev)
  case ConnectToServer
  then show ?thesis
    by (simp add: net_step_def settle_def connectToServer_def socket_connected_def)
next
  case (SocketConnects k sid now)
  with socket_connects_console [where k = k and sid = sid and now = now and n = n and c = c] show ?thesis by (simp add: net_step_def)
next
  case (SocketDrops k)
  then show ?thesis by (simp add: net_step_def settle_def socket_drops_def)
next
  case (HeartbeatFires i now)
  with heartbeat_console [where now = now and n = n and c = c] show ?thesis by (simp add: net_step_def settle_def)
next
  case (ReconnectFires t)
  then show ?thesis
    by (simp add: net_step_def settle_def connectToServer_def socket_connected_def)
next
  case (PongArrives now)
  then show ?thesis by (simp add: net_step_def settle_def on_pong_def)
next
  case (CreateRoomCalled args)
  with createRoom_console [where args = args and n = n and c = c] show ?thesis by (simp add: net_step_def)
next
  case (UpdatePlayerInfoCalled data)
  then show ?thesis
    by (simp add: net_step_def settle_def updatePlayerInfo_def socket_connected_def emit_def
        Let_def split: list.splits)
qed

text \<open>Nothing the session does later depends on what was written to the console.\<close>

lemma net_run_console:
  "(net_run evs (n\<lparr>console := c\<rparr>))\<lparr>console := []\<rparr> = (net_run evs n)\<lparr>console := []\<rparr>"
proof (induction evs arbitrary: n c)
  case Nil
  show ?case by simp
next
  case (Cons ev evs)
  let ?a = "settle (net_step ev (n\<lparr>console := c\<rparr>))" and ?b = "settle (net_step ev n)"
  have "?a = ?b\<lparr>console := console ?a\<rparr>"
    using net_step_console by (rule console_apart)
  then have "net_run evs ?a = net_run evs (?b\<lparr>console := console ?a\<rparr>)"
    by simp
  with Cons.IH [of "console ?a" ?b] show ?case by simp
qed

text \<open>
  C8.  While the session is disconnected (no socket, or a socket that does not report
  connected), \<^verbatim>\<open>updatePlayerInfo\<close> writes its two console lines and changes nothing
  else: no socket receives an \<^verbatim>\<open>emit\<close>, nothing is added to a socket's pending
  callbacks, no error text is shown, no timer is touched.  Whatever happens afterwards,
  the session then is as if the call had not been made, the console apart: the update is
  never sent later.
\<close>

theorem updatePlayerInfo_disconnected:
  assumes "\<not> socket_connected n"
  shows "updatePlayerInfo data n =
           n\<lparr>console := console n @ [''NetworkManager: Sending player info update:'',
                ''NetworkManager: Cannot send update - socket not connected'']\<rparr> \<and>
         (net_run evs (updatePlayerInfo data n))\<lparr>console := []\<rparr> =
           (net_run evs n)\<lparr>console := []\<rparr>"
proof -
  have dropped: "updatePlayerInfo data n =
           n\<lparr>console := console n @ [''NetworkManager: Sending player info update:'',
                ''NetworkManager: Cannot send update - socket not connected'']\<rparr>"
    using assms by (simp add: updatePlayerInfo_def socket_connected_def Let_def)
  moreover have "(net_run evs (updatePlayerInfo data n))\<lparr>console := []\<rparr> =
                 (net_run evs n)\<lparr>console := []\<rparr>"
    unfolding dropped by (rule net_run_console)
  ultimately show ?thesis by (rule conjI)
qed

theorem updatePlayerInfo_disconnected_witness:
  "\<not> socket_connected net_init \<and>
   sockets (updatePlayerInfo \<lparr>oldName = Str ''Marine'', newNickname = Str ''Otter'',
              newSkinId = Undefined\<rparr> net_init) = [] \<and>
   error_message (updatePlayerInfo \<lparr>oldName = Str ''Marine'', newNickname = Str ''Otter'',
              newSkinId = Undefined\<rparr> net_init) = [] \<and>
   map emitted (sockets (net_run [ConnectToServer, SocketConnects 0 (Str ''s1'') 1000]
      (updatePlayerInfo \<lparr>oldName = Str ''Marine'', newNickname = Str ''Otter'',
              newSkinId = Undefined\<rparr> net_init))) = [[]]"
proof -
  let ?d = "\<lparr>oldName = Str ''Marine'', newNickname = Str ''Otter'', newSkinId = Undefined\<rparr>"
  let ?evs = "[ConnectToServer, SocketConnects 0 (Str ''s1'') 1000]"
  have off: "\<not> socket_connected net_init"
    by (simp add: net_init_def socket_connected_def)
  note dropped = updatePlayerInfo_disconnected [OF off, of ?d ?evs]
  from dropped have now: "updatePlayerInfo ?d net_init =
      net_init\<lparr>console := console net_init @ [''NetworkManager: Sending player info update:'',
                ''NetworkManager: Cannot send update - socket not connected'']\<rparr>"
    by (rule conjunct1)
  from dropped have "(net_run ?evs (updatePlayerInfo ?d net_init))\<lparr>console := []\<rparr> =
      (net_run ?evs net_init)\<lparr>console := []\<rparr>"
    by (rule conjunct2)
  then have "sockets ((net_run ?evs (updatePlayerInfo ?d net_init))\<lparr>console := []\<rparr>) =
      sockets ((net_run ?evs net_init)\<lparr>console := []\<rparr>)"
    by (rule arg_cong)
  then have later: "sockets (net_run ?evs (updatePlayerInfo ?d net_init)) =
      sockets (net_run ?evs net_init)"
    by simp
  have "map emitted (sockets (net_run ?evs net_init)) = [[]]"
    by (simp add: net_defs)
  then have "map emitted (sockets (net_run ?evs (updatePlayerInfo ?d net_init))) = [[]]"
    by (simp only: later)
  moreover have "sockets (updatePlayerInfo ?d net_init) = []"
    "error_message (updatePlayerInfo ?d net_init) = []"
    unfolding now by (simp_all add: net_init_def)
  ultimately show ?thesis using off by (simp only: simp_thms)
qed

end
